theory Spec2Isabelle
  imports Complex_Main "HOL-Library.Sublist" "HOL-Library.Signed_Division"
begin

section \<open>The collage canvas of YearOneBook\<close>

text \<open>
  A shallow embedding of \<^verbatim>\<open>src/components/CollageCanvas.tsx\<close> and of the callbacks
  of the host component (\<^verbatim>\<open>src/unnamed/part_000\<close>) that its handlers call.

  JavaScript numbers are modelled as \<^typ>\<open>real\<close>: every geometric statement below is a
  statement of exact real arithmetic, and says nothing about the rounding of IEEE doubles.
  Division by zero yields an infinity or NaN in JavaScript and \<open>0\<close> in HOL; where a
  theorem speaks of a quotient, a hypothesis keeps its divisor positive.
\<close>

subsection \<open>Data model (\<^verbatim>\<open>src/types.ts\<close>)\<close>

text \<open>
  \<^verbatim>\<open>HTMLImageElement\<close>, of which the renderer reads \<^verbatim>\<open>width\<close> and \<^verbatim>\<open>height\<close> only
  (both \<^verbatim>\<open>unsigned long\<close> in the DOM).
\<close>

record img =
  img_width :: nat
  img_height :: nat

text \<open>
  \<^verbatim>\<open>PhotoSlot\<close>. The field \<^verbatim>\<open>file\<close> is never read by the canvas and is left out;
  \<^verbatim>\<open>isCenter?\<close> is optional, \<open>None\<close> standing for \<^verbatim>\<open>undefined\<close>.
\<close>

record slot =
  slot_id :: string
  label :: string
  slot_image :: "img option"
  slot_x :: real
  slot_y :: real
  radius :: real
  isCenter :: "bool option"
  imageOffsetX :: real
  imageOffsetY :: real

subsection \<open>The content square (lines 35--42)\<close>

definition scaleBase :: "real \<Rightarrow> real \<Rightarrow> real" where
  "scaleBase width height = min width height"

definition contentSize :: "real \<Rightarrow> real \<Rightarrow> real" where
  "contentSize width height = scaleBase width height"

definition paddingX :: "real \<Rightarrow> real \<Rightarrow> real" where
  "paddingX width height = (width - contentSize width height) / 2"

definition paddingY :: "real \<Rightarrow> real \<Rightarrow> real" where
  "paddingY width height = (height - contentSize width height) / 2"

text \<open>
  Unit space to canvas pixels, as the renderer (lines 176--177) and the hit test
  (lines 349--350) both write it for a slot centre.
\<close>

definition unitToPixel :: "real \<Rightarrow> real \<Rightarrow> real \<times> real \<Rightarrow> real \<times> real" where
  "unitToPixel width height u =
     (paddingX width height + fst u * contentSize width height,
      paddingY width height + snd u * contentSize width height)"

text \<open>
  Canvas pixels to unit space, as the comment of line 344 describes it: subtract the
  padding, divide by the content size. The handler itself never computes it: it compares
  pointer and slot centre in pixel space (line 353).
\<close>

definition pixelToUnit :: "real \<Rightarrow> real \<Rightarrow> real \<times> real \<Rightarrow> real \<times> real" where
  "pixelToUnit width height p =
     ((fst p - paddingX width height) / contentSize width height,
      (snd p - paddingY width height) / contentSize width height)"

definition slotCenter :: "real \<Rightarrow> real \<Rightarrow> slot \<Rightarrow> real \<times> real" where
  "slotCenter width height s = unitToPixel width height (slot_x s, slot_y s)"

definition slotRadius :: "real \<Rightarrow> real \<Rightarrow> slot \<Rightarrow> real" where
  "slotRadius width height s = radius s * contentSize width height"

subsection \<open>Aspect fill (lines 204--229)\<close>

record draw_rect =
  drawWidth :: real
  drawHeight :: real
  offsetX :: real
  offsetY :: real

definition imgAspect :: "img \<Rightarrow> real" where
  "imgAspect i = real (img_width i) / real (img_height i)"

definition drawAspect :: real where
  "drawAspect = 1"

text \<open>Lines 210--222: the rectangle before the pan offset is added.\<close>

definition aspectFill :: "real \<Rightarrow> real \<Rightarrow> real \<Rightarrow> img \<Rightarrow> draw_rect" where
  "aspectFill cx cy r i =
     (if imgAspect i > drawAspect then
        (let dh = r * 2; dw = dh * imgAspect i
         in \<lparr>drawWidth = dw, drawHeight = dh, offsetX = cx - dw / 2, offsetY = cy - r\<rparr>)
      else
        (let dw = r * 2; dh = dw / imgAspect i
         in \<lparr>drawWidth = dw, drawHeight = dh, offsetX = cx - r, offsetY = cy - dh / 2\<rparr>))"

text \<open>Lines 224--227: the pan offset, stored relative to \<open>scaleBase\<close>.\<close>

definition applyPan :: "real \<Rightarrow> real \<Rightarrow> slot \<Rightarrow> draw_rect \<Rightarrow> draw_rect" where
  "applyPan width height s R =
     R\<lparr>offsetX := offsetX R + imageOffsetX s * scaleBase width height,
       offsetY := offsetY R + imageOffsetY s * scaleBase width height\<rparr>"

text \<open>The rectangle a slot's image is filled into, before and after the pan offset.\<close>

definition slotFill :: "real \<Rightarrow> real \<Rightarrow> slot \<Rightarrow> img \<Rightarrow> draw_rect" where
  "slotFill width height s i =
     aspectFill (fst (slotCenter width height s)) (snd (slotCenter width height s))
       (slotRadius width height s) i"

definition slotImageRect :: "real \<Rightarrow> real \<Rightarrow> slot \<Rightarrow> draw_rect option" where
  "slotImageRect width height s =
     (case slot_image s of
        None \<Rightarrow> None
      | Some i \<Rightarrow> Some (applyPan width height s (slotFill width height s i)))"

subsection \<open>The caption (lines 114--170)\<close>

text \<open>\<^verbatim>\<open>{ x: number, y: number }\<close>, a position as a fraction of the canvas.\<close>

record pos =
  pos_x :: real
  pos_y :: real

text \<open>
  \<^verbatim>\<open>message.split(' ')\<close>: the pieces between the separators, an empty piece between two
  adjacent spaces, and one (empty) piece for the empty string.
\<close>

fun split :: "char \<Rightarrow> string \<Rightarrow> string list" where
  "split sep [] = [[]]"
| "split sep (c # cs) =
     (if c = sep then [] # split sep cs
      else (case split sep cs of
              [] \<Rightarrow> [[c]]
            | piece # pieces \<Rightarrow> (c # piece) # pieces))"

text \<open>
  The loop of lines 145--154 over \<open>words[n..]\<close>, with the current \<open>line\<close> and the
  \<open>lines\<close> pushed so far. \<open>measureText\<close> is \<^verbatim>\<open>ctx.measureText(s).width\<close> under the font
  set at line 117.
\<close>

fun wrapLoop ::
  "(string \<Rightarrow> real) \<Rightarrow> real \<Rightarrow> nat \<Rightarrow> string list \<Rightarrow> string \<Rightarrow> string list
   \<Rightarrow> string list \<times> string" where
  "wrapLoop measureText maxWidth n [] line lines = (lines, line)"
| "wrapLoop measureText maxWidth n (word # rest) line lines =
     (let testLine = line @ word @ '' '' in
      if measureText testLine > maxWidth \<and> n > 0
      then wrapLoop measureText maxWidth (n + 1) rest (word @ '' '') (lines @ [line])
      else wrapLoop measureText maxWidth (n + 1) rest testLine lines)"

text \<open>Lines 144--155: the loop from the empty line, and the push of the last line.\<close>

definition wrapLines :: "(string \<Rightarrow> real) \<Rightarrow> real \<Rightarrow> string list \<Rightarrow> string list" where
  "wrapLines measureText maxWidth words =
     (case wrapLoop measureText maxWidth 0 words [] [] of (lines, line) \<Rightarrow> lines @ [line])"

text \<open>Lines 160--163: one \<^verbatim>\<open>fillText(l, textX, y)\<close> per line, \<open>y\<close> stepping down.\<close>

fun fillLines :: "string list \<Rightarrow> real \<Rightarrow> real \<Rightarrow> real \<Rightarrow> (string \<times> real \<times> real) list" where
  "fillLines [] textX y lineHeight = []"
| "fillLines (l # ls) textX y lineHeight =
     (l, textX, y) # fillLines ls textX (y + lineHeight) lineHeight"

text \<open>
  The \<^verbatim>\<open>fillText\<close> calls of the caption, in order. The prop \<^verbatim>\<open>message?\<close> is optional;
  \<^verbatim>\<open>if (message)\<close> is false for \<^verbatim>\<open>undefined\<close> and for the empty string.
\<close>

definition drawMessage ::
  "(string \<Rightarrow> real) \<Rightarrow> real \<Rightarrow> real \<Rightarrow> string option \<Rightarrow> pos \<Rightarrow> (string \<times> real \<times> real) list" where
  "drawMessage measureText width height message messagePos =
     (case message of
        None \<Rightarrow> []
      | Some m \<Rightarrow>
          if m = [] then []
          else
            (let fontSize = scaleBase width height * 0.035;
                 textX = pos_x messagePos * width;
                 textY = pos_y messagePos * height;
                 maxWidth = width * 0.8;
                 words = split CHR '' '' m;
                 lineHeight = fontSize * 1.3;
                 testWidth = measureText m
             in if testWidth > maxWidth then
                  (let lines = wrapLines measureText maxWidth words;
                       y = textY - ((real (length lines) - 1) * lineHeight) / 2
                   in fillLines lines textX y lineHeight)
                else [(m, textX, textY)]))"

subsection \<open>The label badge (lines 250--277)\<close>

text \<open>\<^verbatim>\<open>String.prototype.includes\<close>: does \<open>sub\<close> occur in \<open>s\<close>?\<close>

fun includesStr :: "string \<Rightarrow> string \<Rightarrow> bool" where
  "includesStr [] sub = (sub = [])"
| "includesStr (c # cs) sub = (prefix sub (c # cs) \<or> includesStr cs sub)"

text \<open>
  \<^verbatim>\<open>String.prototype.replace\<close> with a string pattern: the first occurrence only.
  (The replacement used here is empty, so its \<^verbatim>\<open>$\<close> patterns do not arise.)
\<close>

fun replace :: "string \<Rightarrow> string \<Rightarrow> string \<Rightarrow> string" where
  "replace [] pat rep = (if pat = [] then rep else [])"
| "replace (c # cs) pat rep =
     (if prefix pat (c # cs) then rep @ drop (length pat) (c # cs)
      else c # replace cs pat rep)"

text \<open>
  The double nearest to a natural number, ties to the even mantissa: a number below \<open>2^53\<close>
  is a double itself; a larger one keeps its 53 leading bits, rounded.
\<close>

fun bitLength :: "nat \<Rightarrow> nat" where
  "bitLength n = (if n = 0 then 0 else 1 + bitLength (n div 2))"

declare bitLength.simps [simp del]

definition roundToDouble :: "nat \<Rightarrow> nat" where
  "roundToDouble k =
     (if k < 2 ^ 53 then k
      else
        (let e = bitLength k - 53;
             q = k div 2 ^ e;
             r = k mod 2 ^ e;
             half = 2 ^ (e - 1)
         in (if r < half \<or> (r = half \<and> even q) then q else q + 1) * 2 ^ e))"

text \<open>
  \<^verbatim>\<open>parseInt(string)\<close> without a radix: leading white space is skipped, then an optional
  sign, then \<^verbatim>\<open>0x\<close> or \<^verbatim>\<open>0X\<close> switches to radix 16, then the longest run of digits is
  read. No digit at all gives \<open>NaN\<close>. A numeral of at most 20 significant digits gives
  the double nearest to its integer value. Beyond 20 significant digits ECMAScript lets an
  implementation replace decimal digits by zeros; there the model gives no value
  (\<open>Unmodelled\<close>), for either radix.
\<close>

datatype js_number = NaN | Number int | Unmodelled

definition isWhiteSpace :: "char \<Rightarrow> bool" where
  "isWhiteSpace c =
     (c \<in> {CHR 0x09, CHR 0x0A, CHR 0x0B, CHR 0x0C, CHR 0x0D, CHR 0x20, CHR 0xA0})"

definition digitVal :: "nat \<Rightarrow> char \<Rightarrow> nat option" where
  "digitVal R c =
     (let k = (of_char c :: nat);
          d = (if 48 \<le> k \<and> k \<le> 57 then Some (k - 48)
               else if 97 \<le> k \<and> k \<le> 122 then Some (k - 87)
               else if 65 \<le> k \<and> k \<le> 90 then Some (k - 55)
               else None)
      in case d of None \<Rightarrow> None | Some v \<Rightarrow> if v < R then Some v else None)"

definition digitsValue :: "nat \<Rightarrow> string \<Rightarrow> nat" where
  "digitsValue R Z =
     foldl (\<lambda>acc c. acc * R + (case digitVal R c of None \<Rightarrow> 0 | Some v \<Rightarrow> v)) 0 Z"

definition parseInt :: "string \<Rightarrow> js_number" where
  "parseInt s =
     (let S = dropWhile isWhiteSpace s;
          sign = (if take 1 S = ''-'' then - 1 else (1::int));
          S1 = (if take 1 S = ''-'' \<or> take 1 S = ''+'' then drop 1 S else S);
          hex = (take 2 S1 = ''0x'' \<or> take 2 S1 = ''0X'');
          R = (if hex then 16 else (10::nat));
          S2 = (if hex then drop 2 S1 else S1);
          Z = takeWhile (\<lambda>c. digitVal R c \<noteq> None) S2;
          significant = dropWhile (\<lambda>c. c = CHR ''0'') Z
      in if Z = [] then NaN
         else if length significant > 20 then Unmodelled
         else Number (sign * int (roundToDouble (digitsValue R Z))))"

definition colors :: "string list" where
  "colors = [''#bae6fd'', ''#bbf7d0'', ''#fde68a'', ''#ddd6fe'']"

text \<open>
  \<^verbatim>\<open>colors[num % colors.length]\<close>: \<^verbatim>\<open>%\<close> takes the sign of the dividend, and an index
  that is NaN or outside the array reads \<^verbatim>\<open>undefined\<close>.
\<close>

datatype js_color = Undefined | Color string | UnmodelledColor

definition paletteColor :: "js_number \<Rightarrow> js_color" where
  "paletteColor num =
     (case num of
        NaN \<Rightarrow> Undefined
      | Unmodelled \<Rightarrow> UnmodelledColor
      | Number k \<Rightarrow>
          (let i = k smod int (length colors)
           in if 0 \<le> i \<and> i < int (length colors) then Color (colors ! nat i) else Undefined))"

record badge =
  badgeText :: string
  badgeColor :: js_color

text \<open>Lines 252--263, which read nothing of the slot but its label.\<close>

definition labelBadge :: "string \<Rightarrow> badge" where
  "labelBadge l =
     (if includesStr l ''Day'' then \<lparr>badgeText = ''Day 1'', badgeColor = Color ''#fbcfe8''\<rparr>
      else
        (let t = replace l ''Month '' [];
             num = parseInt t
         in \<lparr>badgeText = t, badgeColor = paletteColor num\<rparr>))"

text \<open>Line 251: the hero slot has a rim and no badge.\<close>

definition slotBadge :: "slot \<Rightarrow> badge option" where
  "slotBadge s = (if isCenter s = Some True then None else Some (labelBadge (label s)))"

text \<open>
  The fill style of the context when the loop over the slots begins. Every call of
  \<^verbatim>\<open>draw\<close> sets it for the background (lines 80, 85) and then for each of the seven
  stars in turn (line 66, called from line 111), so the last star's colour stands, unless
  the caption block runs and sets its own (line 130). Within the loop every assignment
  lies between a \<^verbatim>\<open>save\<close> and its \<^verbatim>\<open>restore\<close> (lines 182/248, 271/291, 294/300), so
  each slot finds the same fill style.
\<close>

definition decorationColors :: "string list" where
  "decorationColors =
     [''#fed7aa'', ''#bae6fd'', ''#bbf7d0'', ''#fbcfe8'', ''#ddd6fe'', ''#fef08a'', ''#bfdbfe'']"

definition fillStyleBeforeSlots :: "string option \<Rightarrow> string" where
  "fillStyleBeforeSlots message =
     (case message of
        None \<Rightarrow> last decorationColors
      | Some m \<Rightarrow> if m = [] then last decorationColors else ''#475569'')"

text \<open>
  Lines 274--277: the colour the badge disc is filled with, \<open>current\<close> being the fill
  style before the assignment of line 276. A canvas ignores the assignment of a value that
  is not a colour, such as \<^verbatim>\<open>undefined\<close>, and keeps its fill style; the colours of the
  palette and the pink are valid ones.
\<close>

datatype badge_fill = NoBadge | Filled string | UnmodelledFill

definition slotBadgeFill :: "string \<Rightarrow> slot \<Rightarrow> badge_fill" where
  "slotBadgeFill current s =
     (case slotBadge s of
        None \<Rightarrow> NoBadge
      | Some b \<Rightarrow>
          (case badgeColor b of
             Undefined \<Rightarrow> Filled current
           | Color c \<Rightarrow> Filled c
           | UnmodelledColor \<Rightarrow> UnmodelledFill))"

text \<open>
  The decimal numeral of a natural number: how the labels of the host component
  (\<^verbatim>\<open>"Month 1"\<close> to \<^verbatim>\<open>"Month 11"\<close>) write their month, and what a template literal
  makes of a number that is a natural number of at most \<open>2^53\<close>.
\<close>

fun numberToString :: "nat \<Rightarrow> string" where
  "numberToString n =
     (if n < 10 then [char_of (48 + n)]
      else numberToString (n div 10) @ [char_of (48 + n mod 10)])"

declare numberToString.simps [simp del]

definition monthLabel :: "nat \<Rightarrow> string" where
  "monthLabel n = ''Month '' @ numberToString n"

subsection \<open>The interaction handlers (lines 312--396)\<close>

datatype drag_target = MessageTarget | SlotTarget string

text \<open>\<^verbatim>\<open>getBoundingClientRect()\<close> of the displayed canvas element.\<close>

record rect =
  rect_left :: real
  rect_top :: real
  rect_width :: real
  rect_height :: real

text \<open>
  A mouse or touch event, reduced to the client position the handlers read
  (\<^verbatim>\<open>e.touches[0]\<close> of a touch event, the event's own position otherwise).
\<close>

record pointer_event =
  clientX :: real
  clientY :: real

text \<open>
  What the handlers read and write: the state of the host component (\<open>slots\<close>,
  \<open>messagePos\<close>), the props \<open>width\<close> and \<open>height\<close>, the component's own four state
  variables, and the bounding rectangle of the mounted canvas (\<open>None\<close> while
  \<^verbatim>\<open>canvasRef.current\<close> is null).
\<close>

record app =
  slots :: "slot list"
  messagePos :: pos
  width :: real
  height :: real
  canvasRect :: "rect option"
  isDragging :: bool
  dragTarget :: "drag_target option"
  lastMousePos :: pos
  cursorStyle :: string

definition getRelativePos :: "app \<Rightarrow> pointer_event \<Rightarrow> pos" where
  "getRelativePos st e =
     (case canvasRect st of
        None \<Rightarrow> \<lparr>pos_x = 0, pos_y = 0\<rparr>
      | Some box \<Rightarrow>
          \<lparr>pos_x = (clientX e - rect_left box) / rect_width box,
           pos_y = (clientY e - rect_top box) / rect_height box\<rparr>)"

text \<open>Line 336: the caption's distance from the pointer, in canvas pixels.\<close>

definition textDist :: "app \<Rightarrow> pos \<Rightarrow> real" where
  "textDist st p =
     (let textDistX = (pos_x p - pos_x (messagePos st)) * width st;
          textDistY = (pos_y p - pos_y (messagePos st)) * height st
      in sqrt (textDistX ^ 2 + textDistY ^ 2))"

text \<open>Lines 349--353: a slot centre's distance from the pointer, in canvas pixels.\<close>

definition slotDist :: "app \<Rightarrow> pos \<Rightarrow> slot \<Rightarrow> real" where
  "slotDist st p s =
     (let pointerPixelX = pos_x p * width st;
          pointerPixelY = pos_y p * height st;
          slotCx = fst (slotCenter (width st) (height st) s);
          slotCy = snd (slotCenter (width st) (height st) s)
      in sqrt ((pointerPixelX - slotCx) ^ 2 + (pointerPixelY - slotCy) ^ 2))"

definition slotHit :: "app \<Rightarrow> pos \<Rightarrow> slot \<Rightarrow> bool" where
  "slotHit st p s =
     (slotDist st p s < slotRadius (width st) (height st) s \<and> slot_image s \<noteq> None)"

text \<open>The loop of lines 348--360: the id of the first slot that is hit.\<close>

fun scanSlots :: "app \<Rightarrow> pos \<Rightarrow> slot list \<Rightarrow> string option" where
  "scanSlots st p [] = None"
| "scanSlots st p (s # rest) =
     (if slotHit st p s then Some (slot_id s) else scanSlots st p rest)"

definition handleMouseDown :: "pointer_event \<Rightarrow> app \<Rightarrow> app" where
  "handleMouseDown e st =
     (let p = getRelativePos st e;
          st1 = st\<lparr>lastMousePos := p\<rparr>
      in if textDist st p < scaleBase (width st) (height st) * 0.15
         then st1\<lparr>isDragging := True, dragTarget := Some MessageTarget\<rparr>
         else (case scanSlots st p (slots st) of
                 Some i \<Rightarrow> st1\<lparr>isDragging := True, dragTarget := Some (SlotTarget i)\<rparr>
               | None \<Rightarrow> st1))"



definition handleMouseUp :: "app \<Rightarrow> app" where
  "handleMouseUp st = st\<lparr>isDragging := False, dragTarget := None, cursorStyle := ''default''\<rparr>"

subsection \<open>The component's view and export (lines 305--308 and 398--429)\<close>

text \<open>The export presets \<^verbatim>\<open>FORMATS\<close> of the host component (\<^verbatim>\<open>part_000\<close>, lines 57--62).\<close>

record format =
  fmt_id :: string
  fmt_label :: string
  fmt_w :: nat
  fmt_h :: nat
  fmt_icon :: string

definition FORMATS :: "format list" where
  "FORMATS =
     [\<lparr>fmt_id = ''sq'', fmt_label = ''Square (Instagram)'', fmt_w = 3000, fmt_h = 3000,
       fmt_icon = ''square''\<rparr>,
      \<lparr>fmt_id = ''port'', fmt_label = ''Portrait (Feed)'', fmt_w = 2400, fmt_h = 3000,
       fmt_icon = ''rect-v''\<rparr>,
      \<lparr>fmt_id = ''land'', fmt_label = ''Landscape (FB)'', fmt_w = 3200, fmt_h = 1800,
       fmt_icon = ''rect-h''\<rparr>,
      \<lparr>fmt_id = ''story'', fmt_label = ''Story (Full Screen)'', fmt_w = 2160, fmt_h = 3840,
       fmt_icon = ''mobile''\<rparr>]"

text \<open>
  The \<^verbatim>\<open>canvas\<close> element of lines 415--427: its \<^verbatim>\<open>width\<close> and \<^verbatim>\<open>height\<close>
  attributes, which size its bitmap, and the \<^verbatim>\<open>width\<close> and \<^verbatim>\<open>height\<close> of its
  \<^verbatim>\<open>style\<close>, which size its box on screen. \<open>el_node\<close> names the DOM node.
\<close>

type_synonym node = nat

record canvas_el =
  el_node :: node
  attr_width :: nat
  attr_height :: nat
  style_width :: string
  style_height :: string

text \<open>
  What the component returns (lines 409--429): a container of \<open>displaySize\<close> by
  \<open>displayH\<close> CSS pixels, and in it the canvas that \<^verbatim>\<open>canvasRef\<close> refers to.
\<close>

record view =
  container_width :: real
  container_height :: real
  view_canvas :: canvas_el

definition componentView :: "node \<Rightarrow> nat \<Rightarrow> nat \<Rightarrow> real \<Rightarrow> view" where
  "componentView k w h displaySize =
     (let displayRatio = real w / real h;
          displayH = displaySize / displayRatio
      in \<lparr>container_width = displaySize, container_height = displayH,
          view_canvas = \<lparr>el_node = k, attr_width = w, attr_height = h,
                          style_width = ''100%'', style_height = ''100%''\<rparr>\<rparr>)"

text \<open>
  \<^verbatim>\<open>canvasRef.current\<close> (line 416, \<^verbatim>\<open>ref={canvasRef}\<close>): the canvas of the mounted
  view, and null while no view is mounted.
\<close>

definition canvasRefCurrent :: "view option \<Rightarrow> canvas_el option" where
  "canvasRefCurrent mounted = map_option view_canvas mounted"

text \<open>
  The DOM effects of the component, in order. \<open>ToDataURL c type quality\<close> stands for the
  string \<^verbatim>\<open>c.toDataURL(type, quality)\<close>, the encoding of the bitmap of \<open>c\<close>.
\<close>

datatype data_url = ToDataURL canvas_el string real

record anchor =
  anchor_download :: string
  anchor_href :: data_url

datatype dom_effect = CreateElement string | Render canvas_el | Click anchor

text \<open>
  The effect hook of lines 305--308: \<^verbatim>\<open>draw()\<close> on the mounted canvas, and once more
  when the fonts are ready.
\<close>

definition drawEffect :: "canvas_el option \<Rightarrow> dom_effect list" where
  "drawEffect canvasRef =
     (case canvasRef of None \<Rightarrow> [] | Some c \<Rightarrow> [Render c, Render c])"

text \<open>
  A number in a template literal. The props are doubles; a natural number of at most
  \<open>2^53\<close> is a double and prints as its decimal numeral. A larger one prints the shortest
  digits that read back as the same double, which the model does not give (\<open>None\<close>).
\<close>

definition templateNumber :: "nat \<Rightarrow> string option" where
  "templateNumber n = (if n \<le> 2 ^ 53 then Some (numberToString n) else None)"

text \<open>
  \<^verbatim>\<open>download\<close> (lines 398--407), with the props \<open>w\<close> and \<open>h\<close> natural numbers as the
  presets are. The result is \<open>None\<close> where a dimension is beyond \<open>templateNumber\<close>.
\<close>

definition download :: "canvas_el option \<Rightarrow> nat \<Rightarrow> nat \<Rightarrow> dom_effect list option" where
  "download canvasRef w h =
     (case canvasRef of
        None \<Rightarrow> Some []
      | Some c \<Rightarrow>
          (case (templateNumber w, templateNumber h) of
             (Some ws, Some hs) \<Rightarrow>
               Some [CreateElement ''a'',
                     Click \<lparr>anchor_download = ''first-year-collage-'' @ ws @ ''x'' @ hs @ ''.png'',
                            anchor_href = ToDataURL c ''image/png'' 1\<rparr>]
           | _ \<Rightarrow> None))"

text \<open>The canvases an effect list serialises, renders, and the elements it creates.\<close>

fun serialised :: "dom_effect list \<Rightarrow> canvas_el list" where
  "serialised [] = []"
| "serialised (Click a # es) = (case anchor_href a of ToDataURL c t q \<Rightarrow> c # serialised es)"
| "serialised (e # es) = serialised es"

fun created :: "dom_effect list \<Rightarrow> string list" where
  "created [] = []"
| "created (CreateElement tag # es) = tag # created es"
| "created (e # es) = created es"

fun rendered :: "dom_effect list \<Rightarrow> canvas_el list" where
  "rendered [] = []"
| "rendered (Render c # es) = c # rendered es"
| "rendered (e # es) = rendered es"

subsection \<open>A sample state\<close>

text \<open>
  Four of the thirteen slots of the host component (\<^verbatim>\<open>part_000\<close>, lines 10--54), those whose
  clock-face position is a decimal fraction: \<^verbatim>\<open>slot-0\<close> at 12 o'clock, \<^verbatim>\<open>slot-3\<close> at 3,
  \<^verbatim>\<open>slot-6\<close> at 6, and the hero slot; three of them hold an image. The square preset is
  shown in a preview of 600 CSS pixels, the caption is at its initial position.
\<close>

definition sampleSlots :: "slot list" where
  "sampleSlots =
     [\<lparr>slot_id = ''slot-0'', label = ''Day 1'',
       slot_image = Some \<lparr>img_width = 4000, img_height = 2000\<rparr>,
       slot_x = 0.5, slot_y = 0.14, radius = 0.08, isCenter = None,
       imageOffsetX = 0, imageOffsetY = 0\<rparr>,
      \<lparr>slot_id = ''slot-3'', label = ''Month 3'', slot_image = None,
       slot_x = 0.86, slot_y = 0.5, radius = 0.08, isCenter = None,
       imageOffsetX = 0, imageOffsetY = 0\<rparr>,
      \<lparr>slot_id = ''slot-6'', label = ''Month 6'',
       slot_image = Some \<lparr>img_width = 1000, img_height = 2000\<rparr>,
       slot_x = 0.5, slot_y = 0.86, radius = 0.08, isCenter = None,
       imageOffsetX = 0, imageOffsetY = 0\<rparr>,
      \<lparr>slot_id = ''birthday'', label = ''1st Birthday'',
       slot_image = Some \<lparr>img_width = 800, img_height = 800\<rparr>,
       slot_x = 0.5, slot_y = 0.5, radius = 0.16, isCenter = Some True,
       imageOffsetX = 0.01, imageOffsetY = 0\<rparr>]"

definition sampleApp :: app where
  "sampleApp =
     \<lparr>slots = sampleSlots,
      messagePos = \<lparr>pos_x = 0.5, pos_y = 0.92\<rparr>,
      width = 3000, height = 3000,
      canvasRect = Some \<lparr>rect_left = 0, rect_top = 0, rect_width = 600, rect_height = 600\<rparr>,
      isDragging = False, dragTarget = None,
      lastMousePos = \<lparr>pos_x = 0, pos_y = 0\<rparr>,
      cursorStyle = ''default''\<rparr>"

text \<open>A text measure for the examples: every character is 50 pixels wide.\<close>

definition sampleMeasure :: "string \<Rightarrow> real" where
  "sampleMeasure s = 50 * real (length s)"

section \<open>Geometry\<close>

lemma contentSize_pos: "0 < min w h \<Longrightarrow> contentSize w h \<noteq> 0"
  by (auto simp: contentSize_def scaleBase_def min_def)

lemma sqrt_less_iff_sq: "0 \<le> x \<Longrightarrow> sqrt x < r \<longleftrightarrow> 0 < r \<and> x < r ^ 2"
proof (cases "0 < r")
  case True
  assume "0 \<le> x"
  have "sqrt x < r \<longleftrightarrow> sqrt x < sqrt (r ^ 2)" using True by simp
  also have "\<dots> \<longleftrightarrow> x < r ^ 2" by (rule real_sqrt_less_iff)
  finally show ?thesis using True by simp
next
  case False
  assume "0 \<le> x"
  hence "0 \<le> sqrt x" by simp
  thus ?thesis using False by linarith
qed

text \<open>The two distances of the hit test, freed of their square roots.\<close>

lemma textDist_less:
  "textDist st p < r \<longleftrightarrow>
     0 < r \<and> ((pos_x p - pos_x (messagePos st)) * width st) ^ 2
           + ((pos_y p - pos_y (messagePos st)) * height st) ^ 2 < r ^ 2"
  by (simp add: textDist_def Let_def sqrt_less_iff_sq)

lemma slotDist_less:
  "slotDist st p s < r \<longleftrightarrow>
     0 < r \<and> (pos_x p * width st - fst (slotCenter (width st) (height st) s)) ^ 2
           + (pos_y p * height st - snd (slotCenter (width st) (height st) s)) ^ 2 < r ^ 2"
  by (simp add: slotDist_def Let_def sqrt_less_iff_sq)

lemmas geom = scaleBase_def contentSize_def slotRadius_def
  slotCenter_def unitToPixel_def paddingX_def paddingY_def power2_eq_square

text \<open>
  C1. For every canvas target whose smaller side is positive, mapping a unit-space point
  to pixels and back gives the point again, and so does mapping a pixel position to unit
  space and back. The equations are exact in real arithmetic and hold for every point,
  inside the content square or not.
\<close>

theorem unit_pixel_roundtrip:
  assumes "0 < min w h"
  shows "pixelToUnit w h (unitToPixel w h u) = u
       \<and> unitToPixel w h (pixelToUnit w h p) = p"
  using contentSize_pos [OF assms]
  by (simp add: pixelToUnit_def unitToPixel_def prod_eq_iff)

theorem unit_pixel_roundtrip_witness:
  "0 < min (3200::real) 1800
   \<and> unitToPixel 3200 1800 (1/2, 1/4) = (1600, 450)
   \<and> pixelToUnit 3200 1800 (unitToPixel 3200 1800 (1/2, 1/4)) = (1/2, 1/4)
   \<and> unitToPixel 3200 1800 (pixelToUnit 3200 1800 (1600, 450)) = (1600, 450)"
  using unit_pixel_roundtrip [of 3200 1800 "(1/2, 1/4)" "(1600, 450)"]
  by (simp add: unitToPixel_def paddingX_def paddingY_def contentSize_def scaleBase_def)

text \<open>
  The hit test compares distances in pixel space. That is the comparison in unit space,
  of the slot's centre and radius with the pointer taken back through \<open>pixelToUnit\<close>.
\<close>

lemma hit_test_in_unit_space:
  assumes "0 < min (width st) (height st)"
  shows "slotDist st p s < slotRadius (width st) (height st) s \<longleftrightarrow>
         sqrt ((fst (pixelToUnit (width st) (height st) (pos_x p * width st, pos_y p * height st))
                  - slot_x s) ^ 2
             + (snd (pixelToUnit (width st) (height st) (pos_x p * width st, pos_y p * height st))
                  - slot_y s) ^ 2) < radius s"
proof -
  define c where "c = contentSize (width st) (height st)"
  have c: "0 < c" using assms by (simp add: c_def contentSize_def scaleBase_def)
  define A where "A = pos_x p * width st - paddingX (width st) (height st)"
  define B where "B = pos_y p * height st - paddingY (width st) (height st)"
  have l: "slotDist st p s < slotRadius (width st) (height st) s \<longleftrightarrow>
     0 < radius s * c \<and> (A - slot_x s * c) ^ 2 + (B - slot_y s * c) ^ 2 < (radius s * c) ^ 2"
    by (simp add: slotDist_less slotCenter_def unitToPixel_def slotRadius_def c_def A_def B_def
        algebra_simps)
  have r: "sqrt ((fst (pixelToUnit (width st) (height st) (pos_x p * width st, pos_y p * height st))
                  - slot_x s) ^ 2
             + (snd (pixelToUnit (width st) (height st) (pos_x p * width st, pos_y p * height st))
                  - slot_y s) ^ 2) < radius s \<longleftrightarrow>
     0 < radius s \<and> (A / c - slot_x s) ^ 2 + (B / c - slot_y s) ^ 2 < (radius s) ^ 2"
    by (simp add: sqrt_less_iff_sq pixelToUnit_def c_def A_def B_def)
  have e1: "A / c - slot_x s = (A - slot_x s * c) / c" using c by (simp add: field_simps)
  have e2: "B / c - slot_y s = (B - slot_y s * c) / c" using c by (simp add: field_simps)
  have e3: "(A / c - slot_x s) ^ 2 + (B / c - slot_y s) ^ 2
      = ((A - slot_x s * c) ^ 2 + (B - slot_y s * c) ^ 2) / c ^ 2"
    unfolding e1 e2 by (simp add: power_divide add_divide_distrib)
  have e4: "((A - slot_x s * c) ^ 2 + (B - slot_y s * c) ^ 2) / c ^ 2 < (radius s) ^ 2
      \<longleftrightarrow> (A - slot_x s * c) ^ 2 + (B - slot_y s * c) ^ 2 < (radius s * c) ^ 2"
    using c by (simp add: divide_less_eq power_mult_distrib)
  have e5: "0 < radius s * c \<longleftrightarrow> 0 < radius s" using c by (simp add: zero_less_mult_iff)
  show ?thesis unfolding l r e3 e4 e5 ..
qed

section \<open>Aspect fill\<close>

lemma imgAspect_pos: "0 < img_width i \<Longrightarrow> 0 < img_height i \<Longrightarrow> 0 < imgAspect i"
  by (simp add: imgAspect_def)

text \<open>
  C2, as the renderer has it. For an image of positive width and height and a circle of
  radius \<open>r \<ge> 0\<close>, the rectangle before the pan offset is centred on the circle and covers
  its bounding square: width and height are at least \<open>2r\<close>. The height is exactly \<open>2r\<close> if
  the aspect ratio is greater than 1, otherwise the width is; both are \<open>2r\<close> exactly when the
  aspect ratio is 1 (or the radius is 0).
\<close>

theorem aspectFill_covers:
  assumes "0 < img_width i" and "0 < img_height i" and "0 \<le> r"
  shows "2 * r \<le> drawWidth (aspectFill cx cy r i)
       \<and> 2 * r \<le> drawHeight (aspectFill cx cy r i)
       \<and> offsetX (aspectFill cx cy r i) + drawWidth (aspectFill cx cy r i) / 2 = cx
       \<and> offsetY (aspectFill cx cy r i) + drawHeight (aspectFill cx cy r i) / 2 = cy
       \<and> offsetX (aspectFill cx cy r i) \<le> cx - r
       \<and> cx + r \<le> offsetX (aspectFill cx cy r i) + drawWidth (aspectFill cx cy r i)
       \<and> offsetY (aspectFill cx cy r i) \<le> cy - r
       \<and> cy + r \<le> offsetY (aspectFill cx cy r i) + drawHeight (aspectFill cx cy r i)
       \<and> (if imgAspect i > 1 then drawHeight (aspectFill cx cy r i) = 2 * r
           else drawWidth (aspectFill cx cy r i) = 2 * r)
       \<and> (drawWidth (aspectFill cx cy r i) = 2 * r \<and> drawHeight (aspectFill cx cy r i) = 2 * r
            \<longleftrightarrow> imgAspect i = 1 \<or> r = 0)"
proof -
  define a where "a = imgAspect i"
  have a: "0 < a" using assms(1,2) by (simp add: a_def imgAspect_pos)
  show ?thesis
  proof (cases "a > 1")
    case True
    define d where "d = r * 2 * a"
    have eq: "aspectFill cx cy r i
      = \<lparr>drawWidth = d, drawHeight = r * 2, offsetX = cx - d / 2, offsetY = cy - r\<rparr>"
      using True by (simp add: aspectFill_def drawAspect_def Let_def a_def d_def)
    have ge: "2 * r \<le> d" using True assms(3) by (simp add: d_def mult_le_cancel_left1)
    have iff: "d = 2 * r \<longleftrightarrow> r = 0" using True by (auto simp: d_def)
    show ?thesis unfolding eq a_def [symmetric] using True ge iff by simp
  next
    case False
    define d where "d = r * 2 / a"
    have eq: "aspectFill cx cy r i
      = \<lparr>drawWidth = r * 2, drawHeight = d, offsetX = cx - r, offsetY = cy - d / 2\<rparr>"
      using False by (simp add: aspectFill_def drawAspect_def Let_def a_def d_def)
    have ge: "2 * r \<le> d" using a False assms(3)
      by (simp add: d_def le_divide_eq mult_left_le)
    have iff: "d = 2 * r \<longleftrightarrow> a = 1 \<or> r = 0" using a
      by (auto simp: d_def field_simps)
    show ?thesis unfolding eq a_def [symmetric] using False ge iff by simp
  qed
qed

theorem aspectFill_covers_witness:
  "0 < img_width \<lparr>img_width = 2, img_height = 1\<rparr>
   \<and> 0 < img_height \<lparr>img_width = 2, img_height = 1\<rparr> \<and> (0::real) \<le> 240
   \<and> imgAspect \<lparr>img_width = 2, img_height = 1\<rparr> > 1
   \<and> drawHeight (aspectFill 1500 1500 240 \<lparr>img_width = 2, img_height = 1\<rparr>) = 2 * 240
   \<and> 2 * 240 \<le> drawWidth (aspectFill 1500 1500 240 \<lparr>img_width = 2, img_height = 1\<rparr>)"
  using aspectFill_covers [of "\<lparr>img_width = 2, img_height = 1\<rparr>" 240 1500 1500]
  by (simp add: imgAspect_def)

text \<open>
  C2 as it is stated fails: for an image twice as wide as high in a circle of radius 240
  the aspect ratio is greater than 1, and the width of the rectangle is 960, not 480; it is
  the height that equals \<open>2r\<close>.
\<close>

theorem aspectFill_width_counterexample:
  "imgAspect \<lparr>img_width = 2, img_height = 1\<rparr> > 1
   \<and> drawWidth (aspectFill 1500 1500 240 \<lparr>img_width = 2, img_height = 1\<rparr>) = 960
   \<and> drawWidth (aspectFill 1500 1500 240 \<lparr>img_width = 2, img_height = 1\<rparr>) \<noteq> 2 * 240
   \<and> drawHeight (aspectFill 1500 1500 240 \<lparr>img_width = 2, img_height = 1\<rparr>) = 2 * 240"
  by (simp add: aspectFill_def imgAspect_def drawAspect_def Let_def)

text \<open>
  C3. An image of positive width and height whose aspect ratio is greater than 1 is drawn
  with height \<open>2r\<close>, its width scaled by the aspect ratio, centred horizontally on the
  circle; an image whose aspect ratio is at most 1 is drawn with width \<open>2r\<close>, at the same
  aspect ratio, centred vertically. An image twice as wide as high, in a slot of unit
  radius 0.08 on a canvas of 3000 by 3000, is drawn 480 pixels high before the pan offset.
\<close>

theorem aspectFill_branches:
  assumes "0 < img_width i" and "0 < img_height i"
  shows "(imgAspect i > 1 \<longrightarrow>
            drawHeight (aspectFill cx cy r i) = 2 * r
          \<and> drawWidth (aspectFill cx cy r i) = drawHeight (aspectFill cx cy r i) * imgAspect i
          \<and> offsetX (aspectFill cx cy r i) + drawWidth (aspectFill cx cy r i) / 2 = cx)
       \<and> (imgAspect i \<le> 1 \<longrightarrow>
            drawWidth (aspectFill cx cy r i) = 2 * r
          \<and> drawWidth (aspectFill cx cy r i) = drawHeight (aspectFill cx cy r i) * imgAspect i
          \<and> offsetY (aspectFill cx cy r i) + drawHeight (aspectFill cx cy r i) / 2 = cy)
       \<and> (img_width i = 2 * img_height i \<and> radius s = 0.08 \<longrightarrow>
            drawHeight (slotFill 3000 3000 s i) = 480)"
proof -
  have a: "0 < imgAspect i" using assms by (rule imgAspect_pos)
  have two: "img_width i = 2 * img_height i \<Longrightarrow> imgAspect i = 2"
    using assms(2) by (simp add: imgAspect_def)
  have c: "img_width i = 2 * img_height i \<Longrightarrow> radius s = 0.08 \<Longrightarrow>
    drawHeight (slotFill 3000 3000 s i) = 480"
    using two by (simp add: slotFill_def aspectFill_def drawAspect_def Let_def slotRadius_def
      contentSize_def scaleBase_def)
  show ?thesis using a c
    by (simp add: aspectFill_def drawAspect_def Let_def)
qed

theorem aspectFill_branches_witness:
  "imgAspect \<lparr>img_width = 4000, img_height = 2000\<rparr> > 1
   \<and> drawHeight (aspectFill 1500 420 240 \<lparr>img_width = 4000, img_height = 2000\<rparr>) = 480
   \<and> offsetX (aspectFill 1500 420 240 \<lparr>img_width = 4000, img_height = 2000\<rparr>) = 1020
   \<and> imgAspect \<lparr>img_width = 1000, img_height = 2000\<rparr> \<le> 1
   \<and> drawWidth (aspectFill 1500 420 240 \<lparr>img_width = 1000, img_height = 2000\<rparr>) = 480
   \<and> offsetY (aspectFill 1500 420 240 \<lparr>img_width = 1000, img_height = 2000\<rparr>) = - 60
   \<and> radius (sampleSlots ! 0) = 0.08
   \<and> drawHeight (slotFill 3000 3000 (sampleSlots ! 0) \<lparr>img_width = 4000, img_height = 2000\<rparr>)
       = 480"
  using aspectFill_branches [of "\<lparr>img_width = 4000, img_height = 2000\<rparr>" 1500 420 240
      "sampleSlots ! 0"]
    aspectFill_branches [of "\<lparr>img_width = 1000, img_height = 2000\<rparr>" 1500 420 240
      "sampleSlots ! 0"]
  by (simp add: imgAspect_def sampleSlots_def)

section \<open>Pointer interaction\<close>

lemma scanSlots_None:
  "scanSlots st p xs = None \<longleftrightarrow> (\<forall>s \<in> set xs. \<not> slotHit st p s)"
  by (induction xs) simp_all

lemma scanSlots_first:
  "slotHit st p s \<Longrightarrow> \<forall>t \<in> set pre. \<not> slotHit st p t \<Longrightarrow>
   scanSlots st p (pre @ s # post) = Some (slot_id s)"
  by (induction pre) simp_all

lemma scanSlots_Some:
  "scanSlots st p xs = Some i \<Longrightarrow> \<exists>s \<in> set xs. slot_id s = i \<and> slotHit st p s"
  by (induction xs) (auto split: if_splits)



text \<open>
  C6. A pointer-down position that lies within the caption's hit region, a disc around the
  caption anchor of radius 0.15 times the content size, and also within the circle of some
  slot, makes the caption the drag target.
\<close>

theorem caption_wins:
  assumes "textDist st (getRelativePos st e) < contentSize (width st) (height st) * 0.15"
    and "\<exists>s \<in> set (slots st).
           slotDist st (getRelativePos st e) s < slotRadius (width st) (height st) s"
  shows "isDragging (handleMouseDown e st)
       \<and> dragTarget (handleMouseDown e st) = Some MessageTarget"
  using assms(1) by (simp add: handleMouseDown_def Let_def contentSize_def)

theorem caption_wins_witness:
  "textDist sampleApp (getRelativePos sampleApp \<lparr>clientX = 300, clientY = 516\<rparr>)
      < contentSize (width sampleApp) (height sampleApp) * 0.15
   \<and> (\<exists>s \<in> set (slots sampleApp).
         slotDist sampleApp (getRelativePos sampleApp \<lparr>clientX = 300, clientY = 516\<rparr>) s
           < slotRadius (width sampleApp) (height sampleApp) s)
   \<and> isDragging (handleMouseDown \<lparr>clientX = 300, clientY = 516\<rparr> sampleApp)
   \<and> dragTarget (handleMouseDown \<lparr>clientX = 300, clientY = 516\<rparr> sampleApp) = Some MessageTarget"
proof -
  have p: "getRelativePos sampleApp \<lparr>clientX = 300, clientY = 516\<rparr> = \<lparr>pos_x = 0.5, pos_y = 0.86\<rparr>"
    by (simp add: getRelativePos_def sampleApp_def)
  have h1: "textDist sampleApp (getRelativePos sampleApp \<lparr>clientX = 300, clientY = 516\<rparr>)
      < contentSize (width sampleApp) (height sampleApp) * 0.15"
    unfolding p by (simp add: textDist_less sampleApp_def geom)
  have h2: "\<exists>s \<in> set (slots sampleApp).
         slotDist sampleApp (getRelativePos sampleApp \<lparr>clientX = 300, clientY = 516\<rparr>) s
           < slotRadius (width sampleApp) (height sampleApp) s"
    unfolding p by (simp add: sampleApp_def sampleSlots_def slotDist_less geom)
  show ?thesis using caption_wins [OF h1 h2] h1 h2 by simp
qed

text \<open>
  C9, as the handler has it. Let \<open>p\<close> be the pointer-down position and let the caption not
  be hit. If some slot is hit (its centre is nearer to the pointer, in pixels, than its
  pixel radius, and it holds an image), the first such slot in array order becomes the drag
  target. If no slot is hit, the handler records \<open>p\<close> in \<open>lastMousePos\<close> and changes
  nothing else: dragging flag and drag target stay as they were, so an idle controller
  stays idle. A slot is the drag target afterwards only if it was so before or is hit.
\<close>

theorem pointer_down_slots:
  assumes "p = getRelativePos st e"
    and "\<not> textDist st p < contentSize (width st) (height st) * 0.15"
  shows "(\<forall>pre s post.
            slots st = pre @ s # post \<and> slotHit st p s \<and> (\<forall>t \<in> set pre. \<not> slotHit st p t)
            \<longrightarrow> handleMouseDown e st
                  = st\<lparr>lastMousePos := p, isDragging := True,
                       dragTarget := Some (SlotTarget (slot_id s))\<rparr>)
       \<and> ((\<forall>s \<in> set (slots st). \<not> slotHit st p s)
            \<longrightarrow> handleMouseDown e st = st\<lparr>lastMousePos := p\<rparr>
              \<and> isDragging (handleMouseDown e st) = isDragging st
              \<and> dragTarget (handleMouseDown e st) = dragTarget st)
       \<and> (\<forall>i. dragTarget (handleMouseDown e st) = Some (SlotTarget i)
            \<longrightarrow> dragTarget st = Some (SlotTarget i)
              \<or> (\<exists>s \<in> set (slots st). slot_id s = i
                    \<and> slotDist st p s < slotRadius (width st) (height st) s
                    \<and> slot_image s \<noteq> None))"
proof (intro conjI allI impI)
  fix pre s post
  assume "slots st = pre @ s # post \<and> slotHit st p s \<and> (\<forall>t \<in> set pre. \<not> slotHit st p t)"
  hence "scanSlots st p (slots st) = Some (slot_id s)"
    by (simp add: scanSlots_first)
  thus "handleMouseDown e st
      = st\<lparr>lastMousePos := p, isDragging := True, dragTarget := Some (SlotTarget (slot_id s))\<rparr>"
    using assms by (simp add: handleMouseDown_def Let_def contentSize_def)
next
  assume "\<forall>s \<in> set (slots st). \<not> slotHit st p s"
  hence n: "scanSlots st p (slots st) = None" by (simp add: scanSlots_None)
  show eq: "handleMouseDown e st = st\<lparr>lastMousePos := p\<rparr>"
    using assms n by (simp add: handleMouseDown_def Let_def contentSize_def)
  show "isDragging (handleMouseDown e st) = isDragging st" by (simp add: eq)
  show "dragTarget (handleMouseDown e st) = dragTarget st" by (simp add: eq)
next
  fix i
  assume t: "dragTarget (handleMouseDown e st) = Some (SlotTarget i)"
  show "dragTarget st = Some (SlotTarget i)
      \<or> (\<exists>s \<in> set (slots st). slot_id s = i
            \<and> slotDist st p s < slotRadius (width st) (height st) s \<and> slot_image s \<noteq> None)"
  proof (cases "scanSlots st p (slots st)")
    case None
    thus ?thesis using assms t by (simp add: handleMouseDown_def Let_def contentSize_def)
  next
    case (Some j)
    hence "j = i" using assms t by (simp add: handleMouseDown_def Let_def contentSize_def)
    thus ?thesis using scanSlots_Some [OF Some] by (simp add: slotHit_def)
  qed
qed

theorem pointer_down_slots_witness:
  "\<not> textDist sampleApp \<lparr>pos_x = 0.5, pos_y = 0.5\<rparr>
        < contentSize (width sampleApp) (height sampleApp) * 0.15
   \<and> handleMouseDown \<lparr>clientX = 300, clientY = 300\<rparr> sampleApp
       = sampleApp\<lparr>lastMousePos := \<lparr>pos_x = 0.5, pos_y = 0.5\<rparr>, isDragging := True,
           dragTarget := Some (SlotTarget ''birthday'')\<rparr>
   \<and> \<not> textDist sampleApp \<lparr>pos_x = 0.86, pos_y = 0.5\<rparr>
        < contentSize (width sampleApp) (height sampleApp) * 0.15
   \<and> handleMouseDown \<lparr>clientX = 516, clientY = 300\<rparr> sampleApp
       = sampleApp\<lparr>lastMousePos := \<lparr>pos_x = 0.86, pos_y = 0.5\<rparr>\<rparr>"
proof -
  have p1: "\<lparr>pos_x = 0.5, pos_y = 0.5\<rparr> = getRelativePos sampleApp \<lparr>clientX = 300, clientY = 300\<rparr>"
    by (simp add: getRelativePos_def sampleApp_def)
  have c1: "\<not> textDist sampleApp \<lparr>pos_x = 0.5, pos_y = 0.5\<rparr>
        < contentSize (width sampleApp) (height sampleApp) * 0.15"
    by (simp add: textDist_less sampleApp_def geom)
  have sl: "slots sampleApp = take 3 sampleSlots @ (sampleSlots ! 3) # []"
    by (simp add: sampleApp_def sampleSlots_def)
  have hit: "slotHit sampleApp \<lparr>pos_x = 0.5, pos_y = 0.5\<rparr> (sampleSlots ! 3)"
    by (simp add: sampleApp_def sampleSlots_def slotHit_def slotDist_less geom)
  have miss: "\<forall>t \<in> set (take 3 sampleSlots). \<not> slotHit sampleApp \<lparr>pos_x = 0.5, pos_y = 0.5\<rparr> t"
    by (simp add: sampleApp_def sampleSlots_def slotHit_def slotDist_less geom)
  have id: "slot_id (sampleSlots ! 3) = ''birthday''" by (simp add: sampleSlots_def)
  have p2: "\<lparr>pos_x = 0.86, pos_y = 0.5\<rparr> = getRelativePos sampleApp \<lparr>clientX = 516, clientY = 300\<rparr>"
    by (simp add: getRelativePos_def sampleApp_def)
  have c2: "\<not> textDist sampleApp \<lparr>pos_x = 0.86, pos_y = 0.5\<rparr>
        < contentSize (width sampleApp) (height sampleApp) * 0.15"
    by (simp add: textDist_less sampleApp_def geom)
  have none: "\<forall>s \<in> set (slots sampleApp). \<not> slotHit sampleApp \<lparr>pos_x = 0.86, pos_y = 0.5\<rparr> s"
    by (simp add: sampleApp_def sampleSlots_def slotHit_def slotDist_less geom)
  show ?thesis
    using pointer_down_slots [OF p1 c1] pointer_down_slots [OF p2 c2] sl hit miss none c1 c2 id
    by metis
qed

text \<open>
  C9 as it is stated fails in its last part: a pointer-down on the third slot of the sample
  state, which holds no image, hits neither the caption nor a slot with an image, and the
  controller is idle before and after, yet the state has changed: \<open>lastMousePos\<close> is the
  pointer position.
\<close>

theorem pointer_down_state_counterexample:
  "\<not> textDist sampleApp (getRelativePos sampleApp \<lparr>clientX = 516, clientY = 300\<rparr>)
        < contentSize (width sampleApp) (height sampleApp) * 0.15
   \<and> scanSlots sampleApp (getRelativePos sampleApp \<lparr>clientX = 516, clientY = 300\<rparr>)
        (slots sampleApp) = None
   \<and> \<not> isDragging sampleApp \<and> dragTarget sampleApp = None
   \<and> lastMousePos sampleApp = \<lparr>pos_x = 0, pos_y = 0\<rparr>
   \<and> lastMousePos (handleMouseDown \<lparr>clientX = 516, clientY = 300\<rparr> sampleApp)
        = \<lparr>pos_x = 0.86, pos_y = 0.5\<rparr>
   \<and> handleMouseDown \<lparr>clientX = 516, clientY = 300\<rparr> sampleApp \<noteq> sampleApp"
proof -
  have p: "getRelativePos sampleApp \<lparr>clientX = 516, clientY = 300\<rparr> = \<lparr>pos_x = 0.86, pos_y = 0.5\<rparr>"
    by (simp add: getRelativePos_def sampleApp_def)
  have c: "\<not> textDist sampleApp \<lparr>pos_x = 0.86, pos_y = 0.5\<rparr>
        < contentSize (width sampleApp) (height sampleApp) * 0.15"
    by (simp add: textDist_less sampleApp_def geom)
  have s: "scanSlots sampleApp \<lparr>pos_x = 0.86, pos_y = 0.5\<rparr> (slots sampleApp) = None"
    by (simp add: sampleApp_def sampleSlots_def slotHit_def slotDist_less geom)
  have d: "handleMouseDown \<lparr>clientX = 516, clientY = 300\<rparr> sampleApp
     = sampleApp\<lparr>lastMousePos := \<lparr>pos_x = 0.86, pos_y = 0.5\<rparr>\<rparr>"
    using c s by (simp add: handleMouseDown_def Let_def p contentSize_def)
  have l: "lastMousePos sampleApp = \<lparr>pos_x = 0, pos_y = 0\<rparr>" by (simp add: sampleApp_def)
  have i: "\<not> isDragging sampleApp \<and> dragTarget sampleApp = None" by (simp add: sampleApp_def)
  have ne: "sampleApp\<lparr>lastMousePos := \<lparr>pos_x = 0.86, pos_y = 0.5\<rparr>\<rparr> \<noteq> sampleApp"
  proof
    assume "sampleApp\<lparr>lastMousePos := \<lparr>pos_x = 0.86, pos_y = 0.5\<rparr>\<rparr> = sampleApp"
    hence "lastMousePos (sampleApp\<lparr>lastMousePos := \<lparr>pos_x = 0.86, pos_y = 0.5\<rparr>\<rparr>)
      = lastMousePos sampleApp" by simp
    thus False by (simp add: l)
  qed
  show ?thesis unfolding p d using c s l i ne by simp
qed

section \<open>The caption's lines\<close>

lemma fillLines_texts: "map fst (fillLines ls textX y lineHeight) = ls"
  by (induction ls arbitrary: y) simp_all

lemma split_not_Nil: "split sep s \<noteq> []"
  by (induction s) (auto split: list.splits)

text \<open>
  The invariant of the wrap loop: the lines pushed so far and the current line are groups
  of consecutive words, each word followed by a space; no pushed group is empty, and the
  current one is empty before the first word only.
\<close>

lemma wrapLoop_groups:
  assumes "\<forall>x \<in> set gs. x \<noteq> []" and "0 < n \<longrightarrow> g \<noteq> []"
  shows "\<exists>gs' g'.
           wrapLoop measureText maxWidth n ws
             (concat (map (\<lambda>word. word @ '' '') g))
             (map (\<lambda>x. concat (map (\<lambda>word. word @ '' '') x)) gs)
           = (map (\<lambda>x. concat (map (\<lambda>word. word @ '' '') x)) gs',
              concat (map (\<lambda>word. word @ '' '') g'))
         \<and> concat gs' @ g' = concat gs @ g @ ws
         \<and> (\<forall>x \<in> set gs'. x \<noteq> [])
         \<and> (g \<noteq> [] \<or> ws \<noteq> [] \<longrightarrow> g' \<noteq> [])"
  using assms
proof (induction ws arbitrary: n g gs)
  case Nil
  show ?case
    by (rule exI [of _ gs], rule exI [of _ g]) (use Nil in simp)
next
  case (Cons word rest)
  let ?r = "\<lambda>x. concat (map (\<lambda>word. word @ '' '') x)"
  show ?case
  proof (cases "measureText (?r g @ word @ '' '') > maxWidth \<and> n > 0")
    case True
    hence g: "g \<noteq> []" using Cons.prems(2) by simp
    have a: "\<forall>x \<in> set (gs @ [g]). x \<noteq> []" using Cons.prems(1) g by simp
    have b: "0 < n + 1 \<longrightarrow> [word] \<noteq> []" by simp
    from Cons.IH [OF a b] obtain gs' g' where
      1: "wrapLoop measureText maxWidth (n + 1) rest (?r [word]) (map ?r (gs @ [g]))
            = (map ?r gs', ?r g')"
      and 2: "concat gs' @ g' = concat (gs @ [g]) @ [word] @ rest"
      and 3: "\<forall>x \<in> set gs'. x \<noteq> []"
      and 4: "[word] \<noteq> [] \<or> rest \<noteq> [] \<longrightarrow> g' \<noteq> []"
      by blast
    have "wrapLoop measureText maxWidth n (word # rest) (?r g) (map ?r gs) = (map ?r gs', ?r g')"
      using True 1 by (simp add: Let_def)
    moreover have "concat gs' @ g' = concat gs @ g @ word # rest" using 2 by simp
    moreover have "g' \<noteq> []" using 4 by simp
    ultimately show ?thesis using 3 by blast
  next
    case False
    have a: "\<forall>x \<in> set gs. x \<noteq> []" using Cons.prems(1) .
    have b: "0 < n + 1 \<longrightarrow> g @ [word] \<noteq> []" by simp
    from Cons.IH [OF a b] obtain gs' g' where
      1: "wrapLoop measureText maxWidth (n + 1) rest (?r (g @ [word])) (map ?r gs)
            = (map ?r gs', ?r g')"
      and 2: "concat gs' @ g' = concat gs @ (g @ [word]) @ rest"
      and 3: "\<forall>x \<in> set gs'. x \<noteq> []"
      and 4: "g @ [word] \<noteq> [] \<or> rest \<noteq> [] \<longrightarrow> g' \<noteq> []"
      by blast
    have "wrapLoop measureText maxWidth n (word # rest) (?r g) (map ?r gs) = (map ?r gs', ?r g')"
      using False 1 by (auto simp: Let_def)
    moreover have "concat gs' @ g' = concat gs @ g @ word # rest" using 2 by simp
    moreover have "g' \<noteq> []" using 4 by simp
    ultimately show ?thesis using 3 by blast
  qed
qed

lemma wrapLines_groups:
  assumes "ws \<noteq> []"
  shows "\<exists>groups. concat groups = ws \<and> (\<forall>g \<in> set groups. g \<noteq> [])
           \<and> wrapLines measureText maxWidth ws
               = map (\<lambda>g. concat (map (\<lambda>word. word @ '' '') g)) groups"
proof -
  have a: "\<forall>x \<in> set ([] :: string list list). x \<noteq> []" by simp
  have b: "0 < (0::nat) \<longrightarrow> ([] :: string list) \<noteq> []" by simp
  from wrapLoop_groups [OF a b, of measureText maxWidth ws] obtain gs' g' where
    1: "wrapLoop measureText maxWidth 0 ws [] []
          = (map (\<lambda>x. concat (map (\<lambda>word. word @ '' '') x)) gs',
             concat (map (\<lambda>word. word @ '' '') g'))"
    and 2: "concat gs' @ g' = ws" and 3: "\<forall>x \<in> set gs'. x \<noteq> []" and 4: "g' \<noteq> []"
    using assms by auto
  show ?thesis
    by (rule exI [of _ "gs' @ [g']"]) (use 1 2 3 4 in \<open>simp add: wrapLines_def\<close>)
qed

lemma group_line_ends_with_space:
  assumes "g \<noteq> []"
  shows "concat (map (\<lambda>word. word @ '' '') g) \<noteq> []
       \<and> last (concat (map (\<lambda>word. word @ '' '') g)) = CHR '' ''"
proof -
  obtain g0 word where g: "g = g0 @ [word]" using assms by (metis rev_exhaust)
  show ?thesis unfolding g by simp
qed

text \<open>
  C8, as the renderer has it. For every caption that is not empty and whose measured width
  does not exceed 80% of the canvas width, the renderer draws exactly one line, the caption
  itself, at the caption anchor.
\<close>

theorem fitting_caption_one_line:
  assumes "m \<noteq> []" and "measureText m \<le> w * 0.8"
  shows "drawMessage measureText w h (Some m) mp = [(m, pos_x mp * w, pos_y mp * h)]"
  using assms by (simp add: drawMessage_def Let_def)

theorem fitting_caption_one_line_witness:
  "''Happy 1st Birthday to our little prince!'' \<noteq> []
   \<and> sampleMeasure ''Happy 1st Birthday to our little prince!'' \<le> 3000 * 0.8
   \<and> drawMessage sampleMeasure 3000 3000 (Some ''Happy 1st Birthday to our little prince!'')
        \<lparr>pos_x = 0.5, pos_y = 0.92\<rparr>
      = [(''Happy 1st Birthday to our little prince!'', 1500, 2760)]"
proof -
  have h1: "''Happy 1st Birthday to our little prince!'' \<noteq> []" by simp
  have h2: "sampleMeasure ''Happy 1st Birthday to our little prince!'' \<le> 3000 * 0.8"
    by (simp add: sampleMeasure_def)
  show ?thesis
    using fitting_caption_one_line [where measureText = sampleMeasure and w = 3000 and h = 3000
        and mp = "\<lparr>pos_x = 0.5, pos_y = 0.92\<rparr>", OF h1 h2] h1 h2
    by simp
qed

text \<open>
  C8 as it is stated fails for the empty caption: its width, 0, does not exceed the maximum
  line width, and the renderer draws no line at all, since \<^verbatim>\<open>if (message)\<close> is false.
\<close>

theorem empty_caption_counterexample:
  "sampleMeasure [] \<le> 3000 * 0.8
   \<and> drawMessage sampleMeasure 3000 3000 (Some []) \<lparr>pos_x = 0.5, pos_y = 0.92\<rparr> = []
   \<and> length (drawMessage sampleMeasure 3000 3000 (Some []) \<lparr>pos_x = 0.5, pos_y = 0.92\<rparr>) \<noteq> 1"
  by (simp add: drawMessage_def sampleMeasure_def)

text \<open>
  C10. For every caption that takes the multi-line path (it is not empty and is wider than
  80% of the canvas width), the lines drawn partition the words that \<^verbatim>\<open>split(' ')\<close> makes of
  it: the words fall into consecutive non-empty groups, one per line, and a line is its
  group's words, each followed by one space. So the lines, concatenated, are the words in
  their order, each once and each followed by a space, and every line, the last one too,
  ends with a space.
\<close>

theorem wrap_partitions_words:
  assumes "m \<noteq> []" and "measureText m > w * 0.8"
  shows "(\<exists>groups.
            concat groups = split CHR '' '' m \<and> (\<forall>g \<in> set groups. g \<noteq> [])
          \<and> map fst (drawMessage measureText w h (Some m) mp)
              = map (\<lambda>g. concat (map (\<lambda>word. word @ '' '') g)) groups)
       \<and> concat (map fst (drawMessage measureText w h (Some m) mp))
           = concat (map (\<lambda>word. word @ '' '') (split CHR '' '' m))
       \<and> (\<forall>l \<in> set (map fst (drawMessage measureText w h (Some m) mp)).
             l \<noteq> [] \<and> last l = CHR '' '')"
proof -
  have d: "map fst (drawMessage measureText w h (Some m) mp)
         = wrapLines measureText (w * 0.8) (split CHR '' '' m)"
    using assms by (simp add: drawMessage_def Let_def fillLines_texts)
  from wrapLines_groups [where ws = "split CHR '' '' m" and measureText = measureText
      and maxWidth = "w * 0.8", OF split_not_Nil]
  obtain groups where 1: "concat groups = split CHR '' '' m"
    and 2: "\<forall>g \<in> set groups. g \<noteq> []"
    and 3: "wrapLines measureText (w * 0.8) (split CHR '' '' m)
              = map (\<lambda>g. concat (map (\<lambda>word. word @ '' '') g)) groups"
    by blast
  have c: "concat (map (\<lambda>g. concat (map (\<lambda>word. word @ '' '') g)) groups)
         = concat (map (\<lambda>word. word @ '' '') (concat groups))"
    by (induction groups) simp_all
  have e: "\<forall>l \<in> set (map (\<lambda>g. concat (map (\<lambda>word. word @ '' '') g)) groups).
             l \<noteq> [] \<and> last l = CHR '' ''"
    using 2 group_line_ends_with_space by auto
  show ?thesis unfolding d 3 using 1 2 c e by auto
qed

theorem wrap_partitions_words_witness:
  "''Happy 1st Birthday to our little prince!'' \<noteq> []
   \<and> sampleMeasure ''Happy 1st Birthday to our little prince!'' > 2160 * 0.8
   \<and> map fst (drawMessage sampleMeasure 2160 3840
        (Some ''Happy 1st Birthday to our little prince!'') \<lparr>pos_x = 0.5, pos_y = 0.92\<rparr>)
      = [''Happy 1st Birthday to our little '', ''prince! '']
   \<and> concat (map fst (drawMessage sampleMeasure 2160 3840
        (Some ''Happy 1st Birthday to our little prince!'') \<lparr>pos_x = 0.5, pos_y = 0.92\<rparr>))
      = ''Happy 1st Birthday to our little prince! ''"
proof -
  have h1: "''Happy 1st Birthday to our little prince!'' \<noteq> []" by simp
  have h2: "sampleMeasure ''Happy 1st Birthday to our little prince!'' > 2160 * 0.8"
    by (simp add: sampleMeasure_def)
  have sp: "split CHR '' '' ''Happy 1st Birthday to our little prince!''
    = [''Happy'', ''1st'', ''Birthday'', ''to'', ''our'', ''little'', ''prince!'']"
    by simp
  have dm: "map fst (drawMessage sampleMeasure 2160 3840
        (Some ''Happy 1st Birthday to our little prince!'') \<lparr>pos_x = 0.5, pos_y = 0.92\<rparr>)
      = [''Happy 1st Birthday to our little '', ''prince! '']"
    by (simp add: drawMessage_def sampleMeasure_def Let_def wrapLines_def scaleBase_def)
  from wrap_partitions_words [where measureText = sampleMeasure and w = 2160 and h = 3840
      and mp = "\<lparr>pos_x = 0.5, pos_y = 0.92\<rparr>", OF h1 h2]
  have "concat (map fst (drawMessage sampleMeasure 2160 3840
        (Some ''Happy 1st Birthday to our little prince!'') \<lparr>pos_x = 0.5, pos_y = 0.92\<rparr>))
      = concat (map (\<lambda>word. word @ '' '')
          (split CHR '' '' ''Happy 1st Birthday to our little prince!''))"
    by blast
  hence "concat (map fst (drawMessage sampleMeasure 2160 3840
        (Some ''Happy 1st Birthday to our little prince!'') \<lparr>pos_x = 0.5, pos_y = 0.92\<rparr>))
      = ''Happy 1st Birthday to our little prince! ''"
    by (simp only: sp) simp
  thus ?thesis using h1 h2 dm by simp
qed

section \<open>Badge colours\<close>

lemma includesStr_set: "includesStr s sub \<Longrightarrow> set sub \<subseteq> set s"
proof (induction s)
  case Nil
  then show ?case by simp
next
  case (Cons c cs)
  then show ?case using set_mono_prefix [of sub "c # cs"] by auto
qed

lemma digit_char: "d < 10 \<Longrightarrow> digitVal 10 (char_of (48 + d)) = Some d"
  by (simp add: digitVal_def Let_def)

lemma digit_not_special:
  "digitVal 10 c \<noteq> None \<Longrightarrow>
     \<not> isWhiteSpace c \<and> c \<noteq> CHR ''-'' \<and> c \<noteq> CHR ''+'' \<and> c \<noteq> CHR ''x'' \<and> c \<noteq> CHR ''X''
     \<and> c \<noteq> CHR ''D''"
  by (auto simp: digitVal_def isWhiteSpace_def Let_def split: if_splits)

lemma numberToString_digits: "\<forall>c \<in> set (numberToString n). digitVal 10 c \<noteq> None"
proof (induction n rule: numberToString.induct)
  case (1 n)
  show ?case
  proof (cases "n < 10")
    case True
    thus ?thesis by (subst numberToString.simps) (simp add: digit_char)
  next
    case False
    have "n mod 10 < 10" by simp
    hence "digitVal 10 (char_of (48 + n mod 10)) \<noteq> None" by (simp only: digit_char) simp
    thus ?thesis using False 1 by (subst numberToString.simps) simp
  qed
qed

lemma numberToString_not_Nil: "numberToString n \<noteq> []"
  by (subst numberToString.simps) simp

lemma numberToString_length: "n < 10 ^ k \<Longrightarrow> 0 < k \<Longrightarrow> length (numberToString n) \<le> k"
proof (induction n arbitrary: k rule: numberToString.induct)
  case (1 n)
  show ?case
  proof (cases "n < 10")
    case True
    thus ?thesis using "1.prems" by (subst numberToString.simps) simp
  next
    case False
    obtain j where k: "k = Suc j" using "1.prems"(2) by (cases k) auto
    have j: "0 < j" using False "1.prems"(1) k by (cases j) auto
    have "n div 10 < 10 ^ j" using "1.prems"(1) k by (simp add: less_mult_imp_div_less mult.commute)
    hence "length (numberToString (n div 10)) \<le> j" using "1.IH" [OF False _ j] by simp
    thus ?thesis using False k by (subst numberToString.simps) simp
  qed
qed

lemma digitsValue_snoc:
  "digitsValue R (Z @ [c]) = digitsValue R Z * R + (case digitVal R c of None \<Rightarrow> 0 | Some v \<Rightarrow> v)"
  by (simp add: digitsValue_def)

lemma digitsValue_numberToString: "digitsValue 10 (numberToString n) = n"
proof (induction n rule: numberToString.induct)
  case (1 n)
  show ?case
  proof (cases "n < 10")
    case True
    thus ?thesis by (subst numberToString.simps) (simp add: digitsValue_def digit_char)
  next
    case False
    have d: "digitVal 10 (char_of (48 + n mod 10)) = Some (n mod 10)"
      by (rule digit_char) simp
    have "digitsValue 10 (numberToString (n div 10) @ [char_of (48 + n mod 10)])
        = n div 10 * 10 + n mod 10"
      using False 1 by (simp only: digitsValue_snoc d) simp
    thus ?thesis using False by (subst numberToString.simps) simp
  qed
qed

text \<open>Below \<open>2^53\<close>, and at it, a natural number is its own double.\<close>

lemma bitLength_2_53: "bitLength 9007199254740992 = 54"
  by (simp add: bitLength.simps)

lemma roundToDouble_exact: "n \<le> 2 ^ 53 \<Longrightarrow> roundToDouble n = n"
proof (cases "n < 2 ^ 53")
  case True
  thus ?thesis by (simp add: roundToDouble_def)
next
  case False
  assume "n \<le> 2 ^ 53"
  hence n: "n = 9007199254740992" using False by simp
  show ?thesis unfolding n by (simp add: roundToDouble_def bitLength_2_53 Let_def)
qed

text \<open>\<^verbatim>\<open>parseInt\<close> reads a decimal numeral of at most \<open>2^53\<close> back.\<close>

lemma parseInt_numberToString:
  assumes "n \<le> 2 ^ 53"
  shows "parseInt (numberToString n) = Number (int n)"
proof -
  let ?s = "numberToString n"
  have dig: "\<forall>c \<in> set ?s. digitVal 10 c \<noteq> None" by (rule numberToString_digits)
  obtain c cs where s: "?s = c # cs" using numberToString_not_Nil [of n] by (cases ?s) auto
  have c: "\<not> isWhiteSpace c" "c \<noteq> CHR ''-''" "c \<noteq> CHR ''+''"
    using dig digit_not_special [of c] by (simp_all add: s)
  have nohex: "take 2 ?s \<noteq> ''0x'' \<and> take 2 ?s \<noteq> ''0X''"
  proof (cases cs)
    case Nil
    thus ?thesis by (simp add: s)
  next
    case (Cons c' cs')
    hence "digitVal 10 c' \<noteq> None" using dig by (simp add: s)
    hence "c' \<noteq> CHR ''x'' \<and> c' \<noteq> CHR ''X''" using digit_not_special [of c'] by simp
    thus ?thesis by (simp add: s Cons)
  qed
  have dw: "dropWhile isWhiteSpace ?s = ?s" using c(1) by (simp add: s)
  have sg: "take 1 ?s \<noteq> ''-'' \<and> take 1 ?s \<noteq> ''+''" using c(2,3) by (simp add: s)
  have tw: "takeWhile (\<lambda>c. digitVal 10 c \<noteq> None) ?s = ?s"
    using dig by (simp add: takeWhile_eq_all_conv)
  have "n < 10 ^ 20" using assms by simp
  hence "length ?s \<le> 20" by (rule numberToString_length) simp
  moreover have "length (dropWhile (\<lambda>c. c = CHR ''0'') ?s) \<le> length ?s"
    by (rule length_dropWhile_le)
  ultimately have sig: "\<not> 20 < length (dropWhile (\<lambda>c. c = CHR ''0'') ?s)" by simp
  have "parseInt ?s =
      (if ?s = [] then NaN
       else if 20 < length (dropWhile (\<lambda>c. c = CHR ''0'') ?s) then Unmodelled
       else Number (1 * int (roundToDouble (digitsValue 10 ?s))))"
    unfolding parseInt_def Let_def dw using sg nohex
    by (simp only: tw if_False simp_thms)
  thus ?thesis using numberToString_not_Nil [of n] sig assms
    by (simp add: digitsValue_numberToString roundToDouble_exact)
qed

lemma paletteColor_nat: "paletteColor (Number (int n)) = Color (colors ! (n mod 4))"
proof -
  have "int n smod 4 = int (n mod 4)"
    by (cases "n = 0") (simp_all add: signed_modulo_int_def zmod_int)
  thus ?thesis by (simp add: paletteColor_def colors_def Let_def)
qed

lemma month_no_Day: "\<not> includesStr (monthLabel n) ''Day''"
proof
  assume "includesStr (monthLabel n) ''Day''"
  hence "CHR ''D'' \<in> set (monthLabel n)" using includesStr_set by fastforce
  hence "CHR ''D'' \<in> set (numberToString n)" by (simp add: monthLabel_def)
  thus False using numberToString_digits [of n] digit_not_special [of "CHR ''D''"] by blast
qed

lemma replace_month: "replace (monthLabel n) ''Month '' [] = numberToString n"
  by (simp add: monthLabel_def)

lemma month_badgeColor:
  "n \<le> 2 ^ 53 \<Longrightarrow> badgeColor (labelBadge (monthLabel n)) = Color (colors ! (n mod 4))"
  by (simp add: labelBadge_def month_no_Day replace_month parseInt_numberToString
      paletteColor_nat Let_def)

lemma day_badgeColor: "includesStr l ''Day'' \<Longrightarrow> badgeColor (labelBadge l) = Color ''#fbcfe8''"
  by (simp add: labelBadge_def)

lemma month_labels:
  "monthLabel 1 = ''Month 1''" "monthLabel 5 = ''Month 5''" "monthLabel 9 = ''Month 9''"
  by (simp_all add: monthLabel_def numberToString.simps char_of_def bit_Suc_0_iff)

text \<open>
  C7, as the renderer has it. Take a slot that is not the hero slot and whose label
  contains \<^verbatim>\<open>Day\<close> or is \<^verbatim>\<open>Month N\<close>, \<open>N\<close> a decimal numeral of at most \<open>2^53\<close>. The
  colour its badge is filled with is determined by the label alone, whatever fill style the
  canvas had before and whatever the slot's other fields: the pink \<^verbatim>\<open>#fbcfe8\<close> for
  \<^verbatim>\<open>Day\<close>, and for \<^verbatim>\<open>Month N\<close> the colour at index \<open>N mod 4\<close> of the palette blue, green,
  yellow, purple; so months 1, 5 and 9 are all green.
\<close>

theorem badge_fill_by_label:
  assumes "isCenter s \<noteq> Some True"
  shows "(includesStr (label s) ''Day'' \<longrightarrow> slotBadgeFill current s = Filled ''#fbcfe8'')
       \<and> (n \<le> 2 ^ 53 \<and> label s = monthLabel n
            \<longrightarrow> slotBadgeFill current s = Filled (colors ! (n mod 4)))
       \<and> colors = [''#bae6fd'', ''#bbf7d0'', ''#fde68a'', ''#ddd6fe'']
       \<and> (label s \<in> {''Month 1'', ''Month 5'', ''Month 9''}
            \<longrightarrow> slotBadgeFill current s = Filled ''#bbf7d0'')
       \<and> (isCenter s' \<noteq> Some True \<and> label s' = label s
            \<and> (includesStr (label s) ''Day'' \<or> (\<exists>k \<le> 2 ^ 53. label s = monthLabel k))
            \<longrightarrow> slotBadgeFill current' s' = slotBadgeFill current s)"
proof -
  have f: "slotBadgeFill cur t =
      (case badgeColor (labelBadge (label t)) of
         Undefined \<Rightarrow> Filled cur | Color c \<Rightarrow> Filled c | UnmodelledColor \<Rightarrow> UnmodelledFill)"
    if "isCenter t \<noteq> Some True" for cur t
    using that by (simp add: slotBadgeFill_def slotBadge_def)
  have day: "slotBadgeFill cur t = Filled ''#fbcfe8''"
    if "isCenter t \<noteq> Some True" "includesStr (label t) ''Day''" for cur t
    using that by (simp add: f day_badgeColor)
  have month: "slotBadgeFill cur t = Filled (colors ! (k mod 4))"
    if "isCenter t \<noteq> Some True" "k \<le> 2 ^ 53" "label t = monthLabel k" for cur t k
    using that by (simp add: f month_badgeColor)
  have m159: "slotBadgeFill current s = Filled ''#bbf7d0''"
    if "label s \<in> {''Month 1'', ''Month 5'', ''Month 9''}"
  proof -
    from that consider "label s = monthLabel 1" | "label s = monthLabel 5" | "label s = monthLabel 9"
      by (auto simp only: month_labels insert_iff empty_iff)
    thus ?thesis
    proof cases
      case 1
      show ?thesis using month [OF assms _ 1, of current] by (simp add: colors_def)
    next
      case 2
      show ?thesis using month [OF assms _ 2, of current] by (simp add: colors_def)
    next
      case 3
      show ?thesis using month [OF assms _ 3, of current] by (simp add: colors_def)
    qed
  qed
  have det: "slotBadgeFill current' s' = slotBadgeFill current s"
    if "isCenter s' \<noteq> Some True \<and> label s' = label s
        \<and> (includesStr (label s) ''Day'' \<or> (\<exists>k \<le> 2 ^ 53. label s = monthLabel k))"
  proof -
    from that have c: "isCenter s' \<noteq> Some True" and l: "label s' = label s" by simp_all
    from that consider "includesStr (label s) ''Day''"
      | k where "k \<le> 2 ^ 53" "label s = monthLabel k" by blast
    thus ?thesis
    proof cases
      case 1
      show ?thesis using day [OF assms 1] day [OF c, of current'] 1 l by simp
    next
      case 2
      show ?thesis using month [OF assms 2, of current] month [OF c 2(1), of current'] 2(2) l
        by simp
    qed
  qed
  show ?thesis
    using day [OF assms, of current] month [OF assms, of n current] m159 det
    by (simp only: colors_def simp_thms) blast
qed

theorem badge_fill_by_label_witness:
  "isCenter (sampleSlots ! 0) \<noteq> Some True
   \<and> includesStr (label (sampleSlots ! 0)) ''Day''
   \<and> slotBadgeFill ''#475569'' (sampleSlots ! 0) = Filled ''#fbcfe8''
   \<and> isCenter (sampleSlots ! 2) \<noteq> Some True
   \<and> (6::nat) \<le> 2 ^ 53 \<and> label (sampleSlots ! 2) = monthLabel 6
   \<and> slotBadgeFill ''#bfdbfe'' (sampleSlots ! 2) = Filled ''#fde68a''"
proof -
  have h0: "isCenter (sampleSlots ! 0) \<noteq> Some True" by (simp add: sampleSlots_def)
  have d0: "includesStr (label (sampleSlots ! 0)) ''Day''" by (simp add: sampleSlots_def)
  have h2: "isCenter (sampleSlots ! 2) \<noteq> Some True" by (simp add: sampleSlots_def)
  have b2: "(6::nat) \<le> 2 ^ 53" by simp
  have l2: "label (sampleSlots ! 2) = monthLabel 6"
    by (simp add: sampleSlots_def monthLabel_def numberToString.simps char_of_def bit_Suc_0_iff)
  have c: "colors ! (6 mod 4) = ''#fde68a''" by (simp add: colors_def)
  from badge_fill_by_label [OF h0, where current = "''#475569''"] d0
  have a: "slotBadgeFill ''#475569'' (sampleSlots ! 0) = Filled ''#fbcfe8''" by blast
  from badge_fill_by_label [OF h2, where current = "''#bfdbfe''" and n = 6] b2 l2
  have "slotBadgeFill ''#bfdbfe'' (sampleSlots ! 2) = Filled (colors ! (6 mod 4))" by blast
  hence b: "slotBadgeFill ''#bfdbfe'' (sampleSlots ! 2) = Filled ''#fde68a''" by (simp only: c)
  show ?thesis using h0 d0 a h2 b2 l2 b by blast
qed

text \<open>Two labels evaluated: a month beyond \<open>2^53\<close>, and a label that is no month.\<close>

lemma parse_big: "parseInt ''9007199254740993'' = Number 9007199254740992"
proof -
  let ?s = "''9007199254740993''"
  have ws: "dropWhile isWhiteSpace ?s = ?s" by (simp add: isWhiteSpace_def)
  have sg: "take 1 ?s \<noteq> ''-'' \<and> take 1 ?s \<noteq> ''+''" by simp
  have nohex: "take 2 ?s \<noteq> ''0x'' \<and> take 2 ?s \<noteq> ''0X''" by simp
  have tw: "takeWhile (\<lambda>c. digitVal 10 c \<noteq> None) ?s = ?s" by (simp add: digitVal_def Let_def)
  have sig: "\<not> 20 < length (dropWhile (\<lambda>c. c = CHR ''0'') ?s)" by simp
  have dv: "digitsValue 10 ?s = 9007199254740993"
    by (simp add: digitsValue_def digitVal_def Let_def)
  have bl: "bitLength 9007199254740993 = 54" by (simp add: bitLength.simps)
  have rd: "roundToDouble 9007199254740993 = 9007199254740992"
    by (simp add: roundToDouble_def bl Let_def)
  have "parseInt ?s =
      (if ?s = [] then NaN
       else if 20 < length (dropWhile (\<lambda>c. c = CHR ''0'') ?s) then Unmodelled
       else Number (1 * int (roundToDouble (digitsValue 10 ?s))))"
    unfolding parseInt_def Let_def ws using sg nohex
    by (simp only: tw if_False simp_thms)
  thus ?thesis using sig by (simp add: dv rd)
qed

lemma parse_week: "parseInt ''Week 2'' = NaN"
proof -
  let ?s = "''Week 2''"
  have ws: "dropWhile isWhiteSpace ?s = ?s" by (simp add: isWhiteSpace_def)
  have sg: "take 1 ?s \<noteq> ''-'' \<and> take 1 ?s \<noteq> ''+''" by simp
  have nohex: "take 2 ?s \<noteq> ''0x'' \<and> take 2 ?s \<noteq> ''0X''" by simp
  have tw: "takeWhile (\<lambda>c. digitVal 10 c \<noteq> None) ?s = []" by (simp add: digitVal_def Let_def)
  show ?thesis unfolding parseInt_def Let_def ws using sg nohex
    by (simp only: tw if_False if_True simp_thms)
qed

lemma big_badge: "labelBadge ''Month 9007199254740993''
    = \<lparr>badgeText = ''9007199254740993'', badgeColor = Color ''#bae6fd''\<rparr>"
proof -
  have i: "\<not> includesStr ''Month 9007199254740993'' ''Day''" by simp
  have r: "replace ''Month 9007199254740993'' ''Month '' [] = ''9007199254740993''" by simp
  have c: "paletteColor (Number 9007199254740992) = Color ''#bae6fd''"
    by (simp add: paletteColor_def colors_def Let_def signed_modulo_int_def)
  show ?thesis unfolding labelBadge_def Let_def r parse_big c using i by simp
qed

lemma week_badge: "labelBadge ''Week 2'' = \<lparr>badgeText = ''Week 2'', badgeColor = Undefined\<rparr>"
proof -
  have i: "\<not> includesStr ''Week 2'' ''Day''" by simp
  have r: "replace ''Week 2'' ''Month '' [] = ''Week 2''" by simp
  have c: "paletteColor NaN = Undefined" by (simp add: paletteColor_def)
  show ?thesis unfolding labelBadge_def Let_def r parse_week c using i by simp
qed

text \<open>
  C7 as it is stated fails twice. For the label \<^verbatim>\<open>Month 9007199254740993\<close> the index
  \<open>N mod 4\<close> is 1, green in the palette, but \<^verbatim>\<open>parseInt\<close> gives the nearest double,
  \<open>2^53\<close>, and the badge is blue. And for a label of neither form, such as
  \<^verbatim>\<open>Week 2\<close>, the colour computed is \<^verbatim>\<open>undefined\<close>; the canvas keeps the fill style it had,
  which is the caption's slate when a caption was drawn and the last star's blue when the
  caption is empty, so one label yields two colours.
\<close>

theorem badge_color_counterexample:
  "monthLabel 9007199254740993 = ''Month 9007199254740993''
   \<and> colors ! (9007199254740993 mod 4) = ''#bbf7d0''
   \<and> slotBadgeFill ''#475569'' ((sampleSlots ! 1)\<lparr>label := ''Month 9007199254740993''\<rparr>)
       = Filled ''#bae6fd''
   \<and> slotBadgeFill (fillStyleBeforeSlots (Some ''Hi'')) ((sampleSlots ! 1)\<lparr>label := ''Week 2''\<rparr>)
       = Filled ''#475569''
   \<and> slotBadgeFill (fillStyleBeforeSlots (Some [])) ((sampleSlots ! 1)\<lparr>label := ''Week 2''\<rparr>)
       = Filled ''#bfdbfe''"
proof -
  have m: "monthLabel 9007199254740993 = ''Month 9007199254740993''"
    by (simp add: monthLabel_def numberToString.simps char_of_def bit_Suc_0_iff)
  have c: "colors ! (9007199254740993 mod 4) = ''#bbf7d0''" by (simp add: colors_def)
  have h: "isCenter (sampleSlots ! 1) \<noteq> Some True" by (simp add: sampleSlots_def)
  have b: "slotBadgeFill ''#475569'' ((sampleSlots ! 1)\<lparr>label := ''Month 9007199254740993''\<rparr>)
       = Filled ''#bae6fd''"
    using h by (simp add: slotBadgeFill_def slotBadge_def big_badge)
  have u: "slotBadgeFill cur ((sampleSlots ! 1)\<lparr>label := ''Week 2''\<rparr>) = Filled cur" for cur
    using h by (simp add: slotBadgeFill_def slotBadge_def week_badge)
  have f1: "fillStyleBeforeSlots (Some ''Hi'') = ''#475569''" by (simp add: fillStyleBeforeSlots_def)
  have f2: "fillStyleBeforeSlots (Some []) = ''#bfdbfe''"
    by (simp add: fillStyleBeforeSlots_def decorationColors_def)
  show ?thesis unfolding u f1 f2 using m c b by simp
qed

section \<open>Export\<close>

lemma numberToString_inj: "numberToString a = numberToString b \<Longrightarrow> a = b"
  by (metis digitsValue_numberToString)

lemma numberToString_no_x: "CHR ''x'' \<notin> set (numberToString n)"
  using numberToString_digits [of n] digit_not_special [of "CHR ''x''"] by blast

lemma digits_before_x:
  "takeWhile (\<lambda>c. c \<noteq> CHR ''x'') (numberToString n @ CHR ''x'' # rest) = numberToString n"
proof -
  have "\<And>c. c \<in> set (numberToString n) \<Longrightarrow> c \<noteq> CHR ''x''"
    using numberToString_no_x [of n] by blast
  thus ?thesis by (simp add: takeWhile_append2)
qed

lemma fileName_inj:
  assumes "numberToString w @ ''x'' @ numberToString h @ ''.png''
         = numberToString w' @ ''x'' @ numberToString h' @ ''.png''"
  shows "w = w' \<and> h = h'"
proof -
  have eq: "numberToString w @ CHR ''x'' # (numberToString h @ ''.png'')
          = numberToString w' @ CHR ''x'' # (numberToString h' @ ''.png'')"
    using assms by simp
  have "takeWhile (\<lambda>c. c \<noteq> CHR ''x'') (numberToString w @ CHR ''x'' # (numberToString h @ ''.png''))
      = takeWhile (\<lambda>c. c \<noteq> CHR ''x'') (numberToString w' @ CHR ''x'' # (numberToString h' @ ''.png''))"
    by (simp only: eq)
  hence a: "numberToString w = numberToString w'" by (simp only: digits_before_x)
  hence "numberToString h = numberToString h'" using assms by simp
  thus ?thesis using a numberToString_inj by blast
qed

lemma download_mounted:
  assumes "w \<le> 2 ^ 53" and "h \<le> 2 ^ 53"
  shows "download (Some c) w h =
           Some [CreateElement ''a'',
                 Click \<lparr>anchor_download =
                          ''first-year-collage-'' @ numberToString w @ ''x'' @ numberToString h
                            @ ''.png'',
                        anchor_href = ToDataURL c ''image/png'' 1\<rparr>]"
  using assms by (simp add: download_def templateNumber_def)

lemma FORMATS_bounds:
  "fmt \<in> set FORMATS \<Longrightarrow>
     0 < fmt_w fmt \<and> 0 < fmt_h fmt \<and> fmt_w fmt \<le> 2 ^ 53 \<and> fmt_h fmt \<le> 2 ^ 53"
  by (auto simp: FORMATS_def)

text \<open>
  C5, as the component has it. For every preset of \<^verbatim>\<open>FORMATS\<close> and every preview size,
  export renders nothing and creates no surface: it creates one anchor element and clicks
  it. The anchor's target is the canvas of the component's own view, serialised once as
  \<^verbatim>\<open>image/png\<close>: the canvas whose \<^verbatim>\<open>width\<close> and \<^verbatim>\<open>height\<close> attributes are the preset's
  pixel dimensions and whose box on screen is all of a container \<open>displaySize\<close> wide, so
  that CSS alone scales it to the preview. The file name is \<^verbatim>\<open>first-year-collage-\<close>, the
  width, \<^verbatim>\<open>x\<close>, the height, \<^verbatim>\<open>.png\<close>, and two presets give the same download only if they
  have the same dimensions. Without a mounted canvas export does nothing.
\<close>

theorem export_serialises_mounted_canvas:
  assumes "fmt \<in> set FORMATS"
    and "v = componentView k (fmt_w fmt) (fmt_h fmt) displaySize"
  shows "download (canvasRefCurrent (Some v)) (fmt_w fmt) (fmt_h fmt) =
           Some [CreateElement ''a'',
                 Click \<lparr>anchor_download =
                          ''first-year-collage-'' @ numberToString (fmt_w fmt) @ ''x''
                            @ numberToString (fmt_h fmt) @ ''.png'',
                        anchor_href = ToDataURL (view_canvas v) ''image/png'' 1\<rparr>]
       \<and> map_option serialised (download (canvasRefCurrent (Some v)) (fmt_w fmt) (fmt_h fmt))
           = Some [view_canvas v]
       \<and> map_option created (download (canvasRefCurrent (Some v)) (fmt_w fmt) (fmt_h fmt))
           = Some [''a'']
       \<and> map_option rendered (download (canvasRefCurrent (Some v)) (fmt_w fmt) (fmt_h fmt))
           = Some []
       \<and> attr_width (view_canvas v) = fmt_w fmt \<and> attr_height (view_canvas v) = fmt_h fmt
       \<and> style_width (view_canvas v) = ''100%'' \<and> style_height (view_canvas v) = ''100%''
       \<and> container_width v = displaySize
       \<and> container_height v = displaySize * real (fmt_h fmt) / real (fmt_w fmt)
       \<and> download (canvasRefCurrent None) (fmt_w fmt) (fmt_h fmt) = Some []
       \<and> (\<forall>fmt' \<in> set FORMATS.
             download (canvasRefCurrent (Some v)) (fmt_w fmt) (fmt_h fmt)
               = download (canvasRefCurrent (Some v)) (fmt_w fmt') (fmt_h fmt')
             \<longrightarrow> fmt_w fmt = fmt_w fmt' \<and> fmt_h fmt = fmt_h fmt')"
proof -
  note b = FORMATS_bounds [OF assms(1)]
  have d: "download (canvasRefCurrent (Some v)) (fmt_w fmt) (fmt_h fmt) =
           Some [CreateElement ''a'',
                 Click \<lparr>anchor_download =
                          ''first-year-collage-'' @ numberToString (fmt_w fmt) @ ''x''
                            @ numberToString (fmt_h fmt) @ ''.png'',
                        anchor_href = ToDataURL (view_canvas v) ''image/png'' 1\<rparr>]"
    using b by (simp add: download_mounted canvasRefCurrent_def)
  have a1: "attr_width (view_canvas v) = fmt_w fmt"
    and a2: "attr_height (view_canvas v) = fmt_h fmt"
    and a3: "style_width (view_canvas v) = ''100%''"
    and a4: "style_height (view_canvas v) = ''100%''"
    and a5: "container_width v = displaySize"
    and a6: "container_height v = displaySize * real (fmt_h fmt) / real (fmt_w fmt)"
    using b by (simp_all add: assms(2) componentView_def Let_def)
  have s: "map_option serialised (download (canvasRefCurrent (Some v)) (fmt_w fmt) (fmt_h fmt))
           = Some [view_canvas v]"
    and cr: "map_option created (download (canvasRefCurrent (Some v)) (fmt_w fmt) (fmt_h fmt))
           = Some [''a'']"
    and r: "map_option rendered (download (canvasRefCurrent (Some v)) (fmt_w fmt) (fmt_h fmt))
           = Some []"
    by (simp_all add: d)
  have n: "download (canvasRefCurrent None) (fmt_w fmt) (fmt_h fmt) = Some []" by (simp add: download_def canvasRefCurrent_def)
  have inj: "fmt_w fmt = fmt_w fmt' \<and> fmt_h fmt = fmt_h fmt'"
    if "fmt' \<in> set FORMATS"
      and "download (canvasRefCurrent (Some v)) (fmt_w fmt) (fmt_h fmt)
            = download (canvasRefCurrent (Some v)) (fmt_w fmt') (fmt_h fmt')" for fmt'
  proof -
    note b' = FORMATS_bounds [OF that(1)]
    have "download (canvasRefCurrent (Some v)) (fmt_w fmt') (fmt_h fmt') =
           Some [CreateElement ''a'',
                 Click \<lparr>anchor_download =
                          ''first-year-collage-'' @ numberToString (fmt_w fmt') @ ''x''
                            @ numberToString (fmt_h fmt') @ ''.png'',
                        anchor_href = ToDataURL (view_canvas v) ''image/png'' 1\<rparr>]"
      using b' by (simp add: download_mounted canvasRefCurrent_def)
    hence "numberToString (fmt_w fmt) @ ''x'' @ numberToString (fmt_h fmt) @ ''.png''
         = numberToString (fmt_w fmt') @ ''x'' @ numberToString (fmt_h fmt') @ ''.png''"
      using that(2) d by simp
    thus ?thesis by (rule fileName_inj)
  qed
  have inj': "\<forall>fmt' \<in> set FORMATS.
             download (canvasRefCurrent (Some v)) (fmt_w fmt) (fmt_h fmt)
               = download (canvasRefCurrent (Some v)) (fmt_w fmt') (fmt_h fmt')
             \<longrightarrow> fmt_w fmt = fmt_w fmt' \<and> fmt_h fmt = fmt_h fmt'"
    using inj by blast
  show ?thesis by (intro conjI) (fact d s cr r a1 a2 a3 a4 a5 a6 n inj')+
qed

theorem export_serialises_mounted_canvas_witness:
  "FORMATS ! 2 \<in> set FORMATS
   \<and> fmt_w (FORMATS ! 2) = 3200 \<and> fmt_h (FORMATS ! 2) = 1800
   \<and> download (canvasRefCurrent (Some (componentView 7 3200 1800 600))) 3200 1800 =
        Some [CreateElement ''a'',
              Click \<lparr>anchor_download = ''first-year-collage-3200x1800.png'',
                     anchor_href =
                       ToDataURL \<lparr>el_node = 7, attr_width = 3200, attr_height = 1800,
                                  style_width = ''100%'', style_height = ''100%''\<rparr>
                         ''image/png'' 1\<rparr>]
   \<and> container_width (componentView 7 3200 1800 600) = 600
   \<and> container_height (componentView 7 3200 1800 600) = 337.5"
proof -
  have h1: "FORMATS ! 2 \<in> set FORMATS" by (simp add: FORMATS_def)
  have w: "fmt_w (FORMATS ! 2) = 3200" and h: "fmt_h (FORMATS ! 2) = 1800"
    by (simp_all add: FORMATS_def)
  have n: "numberToString 3200 = ''3200''" "numberToString 1800 = ''1800''"
    by (simp_all add: numberToString.simps char_of_def bit_Suc_0_iff)
  have c: "canvasRefCurrent (Some (componentView 7 3200 1800 600))
      = Some \<lparr>el_node = 7, attr_width = 3200, attr_height = 1800,
              style_width = ''100%'', style_height = ''100%''\<rparr>"
    by (simp add: componentView_def canvasRefCurrent_def)
  have c': "view_canvas (componentView 7 3200 1800 600)
      = \<lparr>el_node = 7, attr_width = 3200, attr_height = 1800,
         style_width = ''100%'', style_height = ''100%''\<rparr>"
    by (simp add: componentView_def)
  note t = export_serialises_mounted_canvas [OF h1 refl, of 7 600, unfolded w h n c c']
  show ?thesis unfolding c using t h1 w h by simp
qed

text \<open>
  C5 as it is stated fails: with the square preset in a preview of 600 CSS pixels, the
  surface that export serialises is the canvas of the component's view, the one on screen
  and the one the effect hook renders to; export creates no canvas and renders to none.
\<close>

theorem export_fresh_surface_counterexample:
  "map_option serialised (download (canvasRefCurrent (Some (componentView 0 3000 3000 600))) 3000 3000)
     = Some [view_canvas (componentView 0 3000 3000 600)]
   \<and> map_option created (download (canvasRefCurrent (Some (componentView 0 3000 3000 600))) 3000 3000)
     = Some [''a'']
   \<and> map_option rendered (download (canvasRefCurrent (Some (componentView 0 3000 3000 600))) 3000 3000)
     = Some []
   \<and> rendered (drawEffect (canvasRefCurrent (Some (componentView 0 3000 3000 600))))
     = [view_canvas (componentView 0 3000 3000 600), view_canvas (componentView 0 3000 3000 600)]
   \<and> container_width (componentView 0 3000 3000 600) = 600"
  by (simp add: download_def templateNumber_def drawEffect_def componentView_def
      canvasRefCurrent_def)

end
